theory Spec2Isabelle
  imports Main
begin

section \<open>Process record (Process.h, Process.cpp)\<close>

text \<open>
  The simulator's integers are C++ \<open>int\<close>. They are modelled as unbounded \<open>int\<close>:
  simulated times stay far below \<open>INT_MAX\<close>, and signed overflow is undefined in C++
  anyway. \<open>INT_MAX\<close> itself is kept, because the schedulers use it as a sentinel.
\<close>

definition INT_MAX :: int where
  "INT_MAX = 2147483647"

datatype ProcessState = NEW | READY | RUNNING | WAITING | TERMINATED

record Process =
  pid :: int
  name :: string
  arrivalTime :: int
  burstTime :: int
  remainingTime :: int
  priority :: int
  state :: ProcessState
  startTime :: int
  completionTime :: int
  waitingTime :: int
  turnaroundTime :: int
  responseTime :: int
  lastScheduledTime :: int
  firstSchedule :: bool

text \<open>The constructor \<open>Process::Process(pid, name, arrivalTime, burstTime, priority)\<close>.\<close>

definition Process_init :: "int \<Rightarrow> string \<Rightarrow> int \<Rightarrow> int \<Rightarrow> int \<Rightarrow> Process" where
  "Process_init pid' name' arrivalTime' burstTime' priority' =
     \<lparr> pid = pid', name = name', arrivalTime = arrivalTime', burstTime = burstTime',
       remainingTime = burstTime', priority = priority', state = NEW,
       startTime = -1, completionTime = -1, waitingTime = 0, turnaroundTime = 0,
       responseTime = 0, lastScheduledTime = arrivalTime', firstSchedule = True \<rparr>"

text \<open>\<open>Process::execute\<close> returns the time executed together with the updated process.\<close>

definition execute :: "int \<Rightarrow> Process \<Rightarrow> int \<times> Process" where
  "execute quantum p =
     (let executionTime = min quantum (remainingTime p)
      in (executionTime, p\<lparr>remainingTime := remainingTime p - executionTime\<rparr>))"

definition calculateMetrics :: "Process \<Rightarrow> Process" where
  "calculateMetrics p =
     p\<lparr>turnaroundTime := completionTime p - arrivalTime p,
       responseTime := startTime p - arrivalTime p\<rparr>"

definition reset :: "Process \<Rightarrow> Process" where
  "reset p =
     p\<lparr>remainingTime := burstTime p, state := NEW, startTime := -1, completionTime := -1,
       waitingTime := 0, turnaroundTime := 0, responseTime := 0,
       lastScheduledTime := arrivalTime p, firstSchedule := True\<rparr>"

definition addWaitingTime :: "int \<Rightarrow> Process \<Rightarrow> Process" where
  "addWaitingTime t p = p\<lparr>waitingTime := waitingTime p + t\<rparr>"

definition isComplete :: "Process \<Rightarrow> bool" where
  "isComplete p \<longleftrightarrow> remainingTime p = 0"

text \<open>
  Everything a caller can do to a process after constructing it: the six inline setters of
  Process.h, \<open>execute\<close>, \<open>addWaitingTime\<close>, \<open>calculateMetrics\<close> and \<open>reset\<close>.
\<close>

datatype ProcessOp =
    Execute int
  | SetState ProcessState
  | SetPriority int
  | SetStartTime int
  | SetCompletionTime int
  | SetLastScheduledTime int
  | SetFirstSchedule bool
  | AddWaitingTime int
  | CalculateMetrics
  | Reset

fun apply_op :: "ProcessOp \<Rightarrow> Process \<Rightarrow> Process" where
  "apply_op (Execute u) p = snd (execute u p)"
| "apply_op (SetState st) p = p\<lparr>state := st\<rparr>"
| "apply_op (SetPriority v) p = p\<lparr>priority := v\<rparr>"
| "apply_op (SetStartTime t) p = p\<lparr>startTime := t\<rparr>"
| "apply_op (SetCompletionTime t) p = p\<lparr>completionTime := t\<rparr>"
| "apply_op (SetLastScheduledTime t) p = p\<lparr>lastScheduledTime := t\<rparr>"
| "apply_op (SetFirstSchedule b) p = p\<lparr>firstSchedule := b\<rparr>"
| "apply_op (AddWaitingTime t) p = addWaitingTime t p"
| "apply_op CalculateMetrics p = calculateMetrics p"
| "apply_op Reset p = reset p"

definition run_ops :: "ProcessOp list \<Rightarrow> Process \<Rightarrow> Process" where
  "run_ops ops p = fold apply_op ops p"

text \<open>The contract of \<open>execute\<close>: the caller never asks for negative work.\<close>

fun nonneg_request :: "ProcessOp \<Rightarrow> bool" where
  "nonneg_request (Execute u) = (0 \<le> u)"
| "nonneg_request _ = True"

definition remaining_in_bounds :: "Process \<Rightarrow> bool" where
  "remaining_in_bounds p \<longleftrightarrow> 0 \<le> remainingTime p \<and> remainingTime p \<le> burstTime p"

section \<open>Base scheduler (Scheduler.h, Scheduler.cpp)\<close>

text \<open>
  The schedulers hold \<open>std::shared_ptr<Process>\<close> values and compare them by identity
  (\<open>p != process\<close>). The model keeps the process objects in the list \<open>processes\<close>, each
  object added once, and a pointer is the index of its object in that list; \<open>None\<close> is
  \<open>nullptr\<close>. Queues hold indices, so a queue entry and the vector entry alias the same
  object as in the source.
\<close>

record Scheduler =
  processes :: "Process list"
  currentTime :: int
  contextSwitchOverhead :: int
  totalContextSwitches :: int
  currentProcess :: "nat option"

text \<open>\<open>at i f ps\<close>: apply the mutator \<open>f\<close> to the object behind pointer \<open>i\<close>.\<close>

definition at :: "nat \<Rightarrow> (Process \<Rightarrow> Process) \<Rightarrow> Process list \<Rightarrow> Process list" where
  "at i f ps = ps[i := f (ps ! i)]"

definition contextSwitch ::
  "nat option \<Rightarrow> nat option \<Rightarrow> 'a Scheduler_scheme \<Rightarrow> 'a Scheduler_scheme" where
  "contextSwitch from to s =
     (let s1 = (if from \<noteq> to \<and> from \<noteq> None \<and> to \<noteq> None
                then s\<lparr>totalContextSwitches := totalContextSwitches s + 1,
                       currentTime := currentTime s + contextSwitchOverhead s\<rparr>
                else s);
          s2 = (case from of
                  None \<Rightarrow> s1
                | Some f \<Rightarrow>
                    if state (processes s1 ! f) = RUNNING
                    then s1\<lparr>processes := at f (\<lambda>p. p\<lparr>state := READY\<rparr>) (processes s1)\<rparr>
                    else s1);
          s3 = (case to of
                  None \<Rightarrow> s2
                | Some t \<Rightarrow>
                    let s' = s2\<lparr>processes := at t (\<lambda>p. p\<lparr>state := RUNNING\<rparr>) (processes s2)\<rparr>
                    in if firstSchedule (processes s' ! t)
                       then s'\<lparr>processes :=
                                at t (\<lambda>p. p\<lparr>startTime := currentTime s', firstSchedule := False\<rparr>)
                                  (processes s')\<rparr>
                       else s')
      in s3\<lparr>currentProcess := to\<rparr>)"

definition updateWaitingTimes :: "int \<Rightarrow> 'a Scheduler_scheme \<Rightarrow> 'a Scheduler_scheme" where
  "updateWaitingTimes elapsedTime s =
     s\<lparr>processes :=
         map (\<lambda>p. if state p = READY then addWaitingTime elapsedTime p else p) (processes s)\<rparr>"

text \<open>\<open>admitArrivingProcesses\<close> returns the number admitted; every caller drops it.\<close>

definition admitArrivingProcesses :: "'a Scheduler_scheme \<Rightarrow> int \<times> 'a Scheduler_scheme" where
  "admitArrivingProcesses s =
     (let arrived = (\<lambda>p. state p = NEW \<and> arrivalTime p \<le> currentTime s)
      in (int (length (filter arrived (processes s))),
          s\<lparr>processes :=
              map (\<lambda>p. if arrived p then p\<lparr>state := READY\<rparr> else p) (processes s)\<rparr>))"

text \<open>The pieces every \<open>schedule()\<close> repeats verbatim.\<close>

definition earliestArrival :: "Process list \<Rightarrow> int" where
  "earliestArrival ps = fold (\<lambda>p e. min e (arrivalTime p)) ps INT_MAX"

definition nextArrival :: "Process list \<Rightarrow> int" where
  "nextArrival ps =
     fold (\<lambda>p e. if state p = NEW then min e (arrivalTime p) else e) ps INT_MAX"

definition allTerminated :: "Process list \<Rightarrow> bool" where
  "allTerminated ps = list_all (\<lambda>p. state p = TERMINATED) ps"

text \<open>
  \<open>Scheduler::calculateMetrics\<close> sums the waiting times of the \<open>TERMINATED\<close> processes
  and counts them; the average it reports is the quotient of the two as a \<open>double\<close>, or 0
  when no process is \<open>TERMINATED\<close>. The two integers are modelled, the division is not.
\<close>

definition waitingTotals :: "'a Scheduler_scheme \<Rightarrow> int \<times> int" where
  "waitingTotals s =
     fold (\<lambda>p (totalWaiting, completedProcesses).
             if state p = TERMINATED
             then (totalWaiting + waitingTime p, completedProcesses + 1)
             else (totalWaiting, completedProcesses))
          (processes s) (0, 0)"

text \<open>
  \<open>for (auto& p : processes) if (p != process && p->getState() == READY)
  p->addWaitingTime(t)\<close>.
\<close>

definition addWaitingToOthers :: "nat \<Rightarrow> int \<Rightarrow> Process list \<Rightarrow> Process list" where
  "addWaitingToOthers i t ps =
     map (\<lambda>(j, p). if j \<noteq> i \<and> state p = READY then addWaitingTime t p else p)
         (zip [0..<length ps] ps)"

text \<open>
  The enqueue loop of the Round Robin scheduler. \<open>skip\<close> is the process the second copy of
  the loop excludes with \<open>p != process\<close> (\<open>None\<close> in the first copy); the scan of
  \<open>tempQueue\<close> is the membership test.
\<close>

definition enqueueOne :: "int \<Rightarrow> nat option \<Rightarrow> nat \<Rightarrow> Process list \<times> nat list \<Rightarrow> Process list \<times> nat list" where
  "enqueueOne now skip i = (\<lambda>(ps, q).
     if state (ps ! i) = READY \<and> Some i \<noteq> skip \<and> lastScheduledTime (ps ! i) < now
     then (if i \<in> set q then (ps, q)
           else (at i (\<lambda>p. p\<lparr>lastScheduledTime := now\<rparr>) ps, q @ [i]))
     else (ps, q))"

definition enqueueReady :: "int \<Rightarrow> nat option \<Rightarrow> Process list \<Rightarrow> nat list \<Rightarrow> Process list \<times> nat list" where
  "enqueueReady now skip ps q = fold (enqueueOne now skip) [0..<length ps] (ps, q)"

text \<open>
  One pass through the body of a \<open>while (!allComplete)\<close> loop either comes back to the
  loop test with \<open>allComplete\<close> false (\<open>Continue\<close>) or leaves the loop (\<open>Break\<close>).
\<close>

datatype 'a loop_result = Continue 'a | Break 'a

text \<open>\<open>ganttChart.push_back(name)\<close>, \<open>n\<close> times (no times when \<open>n \<le> 0\<close>).\<close>

definition pushTimes :: "int \<Rightarrow> string \<Rightarrow> string list \<Rightarrow> string list" where
  "pushTimes n nm chart = chart @ replicate (nat n) nm"

text \<open>\<open>setCompletionTime(currentTime); calculateMetrics(); setState(TERMINATED)\<close>.\<close>

definition terminate :: "int \<Rightarrow> Process \<Rightarrow> Process" where
  "terminate now p = (calculateMetrics (p\<lparr>completionTime := now\<rparr>))\<lparr>state := TERMINATED\<rparr>"

section \<open>Round Robin (RoundRobinScheduler.h, RoundRobinScheduler.cpp)\<close>

record RoundRobinScheduler = Scheduler +
  timeQuantum :: int
  readyQueue_RR :: "nat list"
  ganttChart_RR :: "string list"

text \<open>The constructor followed by one \<open>addProcess\<close> per process.\<close>

definition RoundRobinScheduler_init :: "int \<Rightarrow> int \<Rightarrow> Process list \<Rightarrow> RoundRobinScheduler" where
  "RoundRobinScheduler_init quantum overhead ps =
     \<lparr> processes = ps, currentTime = 0, contextSwitchOverhead = overhead,
       totalContextSwitches = 0, currentProcess = None,
       timeQuantum = quantum, readyQueue_RR = [], ganttChart_RR = [] \<rparr>"

definition rr_enqueue :: "nat option \<Rightarrow> RoundRobinScheduler \<Rightarrow> RoundRobinScheduler" where
  "rr_enqueue skip s =
     (let (ps, q) = enqueueReady (currentTime s) skip (processes s) (readyQueue_RR s)
      in s\<lparr>processes := ps, readyQueue_RR := q\<rparr>)"

text \<open>The part of the loop body from \<open>readyQueue.front()\<close> to the end.\<close>

definition rr_dispatch :: "nat \<Rightarrow> RoundRobinScheduler \<Rightarrow> RoundRobinScheduler loop_result" where
  "rr_dispatch i s0 =
     (let s1 = s0\<lparr>readyQueue_RR := tl (readyQueue_RR s0)\<rparr>;
          s2 = contextSwitch (currentProcess s1) (Some i) s1;
          (executionTime, p') = execute (timeQuantum s2) (processes s2 ! i);
          s3 = s2\<lparr>processes := (processes s2)[i := p'],
                  ganttChart_RR := pushTimes executionTime (name p') (ganttChart_RR s2)\<rparr>;
          s4 = s3\<lparr>currentTime := currentTime s3 + executionTime\<rparr>;
          s5 = s4\<lparr>processes := addWaitingToOthers i executionTime (processes s4)\<rparr>;
          s6 = (if isComplete (processes s5 ! i)
                then s5\<lparr>processes := at i (terminate (currentTime s5)) (processes s5)\<rparr>
                else
                  let a = s5\<lparr>processes := at i (\<lambda>p. p\<lparr>state := READY\<rparr>) (processes s5)\<rparr>;
                      b = snd (admitArrivingProcesses a);
                      c = rr_enqueue (Some i) b
                  in c\<lparr>readyQueue_RR := readyQueue_RR c @ [i],
                       processes := at i (\<lambda>p. p\<lparr>lastScheduledTime := currentTime c\<rparr>) (processes c)\<rparr>);
          s7 = s6\<lparr>currentProcess := None\<rparr>
      in if allTerminated (processes s7) then Break s7 else Continue s7)"

definition rr_iteration :: "RoundRobinScheduler \<Rightarrow> RoundRobinScheduler loop_result" where
  "rr_iteration s0 =
     (let s1 = snd (admitArrivingProcesses s0);
          s2 = rr_enqueue None s1
      in case readyQueue_RR s2 of
           [] \<Rightarrow>
             let next = nextArrival (processes s2)
             in if next \<noteq> INT_MAX
                then let s3 = updateWaitingTimes (next - currentTime s2) s2
                     in Continue (s3\<lparr>currentTime := next,
                                     ganttChart_RR := ganttChart_RR s3 @ [''IDLE'']\<rparr>)
                else Break s2
         | i # _ \<Rightarrow> rr_dispatch i s2)"

text \<open>
  The loop runs for ever when the quantum is not positive, so it takes fuel: \<open>None\<close> means
  that \<open>n\<close> passes through the body did not reach the end of the loop.
\<close>

fun rr_loop :: "nat \<Rightarrow> RoundRobinScheduler \<Rightarrow> RoundRobinScheduler option" where
  "rr_loop 0 s = None"
| "rr_loop (Suc n) s =
     (case rr_iteration s of Break s' \<Rightarrow> Some s' | Continue s' \<Rightarrow> rr_loop n s')"

definition rr_schedule :: "nat \<Rightarrow> RoundRobinScheduler \<Rightarrow> RoundRobinScheduler option" where
  "rr_schedule n s =
     rr_loop n (s\<lparr>currentTime := earliestArrival (processes s), ganttChart_RR := []\<rparr>)"

section \<open>Priority scheduling (PriorityScheduler.h, PriorityScheduler.cpp)\<close>

text \<open>
  What a run can die of: \<open>%\<close> with a zero divisor, an index outside a \<open>std::vector\<close>,
  and \<open>std::length_error\<close> from \<open>vector::resize\<close> with a negative size.
\<close>

datatype error = DivisionByZero | OutOfRange | LengthError

text \<open>C++ \<open>a % b\<close>: the remainder of the division that truncates towards zero.\<close>

definition cpp_rem :: "int \<Rightarrow> int \<Rightarrow> error + int" where
  "cpp_rem a b =
     (if b = 0 then Inl DivisionByZero
      else Inr (a - b * (sgn a * sgn b * (\<bar>a\<bar> div \<bar>b\<bar>))))"

record PriorityScheduler = Scheduler +
  preemptive :: bool
  agingEnabled_P :: bool
  agingInterval :: int
  ganttChart_P :: "string list"
  readyQueue_P :: "nat list"

definition PriorityScheduler_init ::
  "bool \<Rightarrow> bool \<Rightarrow> int \<Rightarrow> int \<Rightarrow> Process list \<Rightarrow> PriorityScheduler" where
  "PriorityScheduler_init preemptive' enableAging agingInterval' overhead ps =
     \<lparr> processes = ps, currentTime = 0, contextSwitchOverhead = overhead,
       totalContextSwitches = 0, currentProcess = None,
       preemptive = preemptive', agingEnabled_P = enableAging, agingInterval = agingInterval',
       ganttChart_P = [], readyQueue_P = [] \<rparr>"

text \<open>
  \<open>PriorityComparator a b\<close> holds when \<open>a\<close> is to be served after \<open>b\<close>. The
  \<open>std::priority_queue\<close> is modelled by the list of its elements in the order they were
  pushed. \<open>top()\<close> is an element that the comparator puts after no other; the queue is only
  ever filled by \<open>push\<close>, and \<open>push_heap\<close> moves a new element above its parent only when
  the parent compares strictly before it, so among equals the one pushed first stays on top.
\<close>

definition PriorityComparator :: "Process \<Rightarrow> Process \<Rightarrow> bool" where
  "PriorityComparator a b =
     (if priority a \<noteq> priority b then priority a > priority b
      else arrivalTime a > arrivalTime b)"

definition pq_top :: "Process list \<Rightarrow> nat list \<Rightarrow> nat" where
  "pq_top ps q =
     fold (\<lambda>i best. if PriorityComparator (ps ! best) (ps ! i) then i else best) (tl q) (hd q)"

definition pq_pop :: "Process list \<Rightarrow> nat list \<Rightarrow> nat list" where
  "pq_pop ps q = remove1 (pq_top ps q) q"

definition prio_applyAging :: "PriorityScheduler \<Rightarrow> PriorityScheduler" where
  "prio_applyAging s =
     (if \<not> agingEnabled_P s then s
      else s\<lparr>processes :=
               map (\<lambda>p. if state p = READY
                         then (let waitingTime' = currentTime s - lastScheduledTime p
                               in if waitingTime' \<ge> agingInterval s \<and> priority p > 0
                                  then p\<lparr>priority := priority p - 1\<rparr>
                                  else p)
                         else p)
                   (processes s)\<rparr>)"

text \<open>
  The loop state is the scheduler together with the local \<open>runningProcess\<close>. The three
  functions below are the three ways through the loop body after the ready queue is rebuilt.
\<close>

type_synonym prio_state = "nat option \<times> PriorityScheduler"

definition prio_end_of_body :: "prio_state \<Rightarrow> prio_state loop_result" where
  "prio_end_of_body = (\<lambda>(running, s).
     if allTerminated (processes s) then Break (running, s) else Continue (running, s))"

definition prio_queue_empty :: "nat option \<Rightarrow> PriorityScheduler \<Rightarrow> prio_state loop_result" where
  "prio_queue_empty running s =
     (let findNext =
            (let next = nextArrival (processes s)
             in if next \<noteq> INT_MAX
                then Continue (running, s\<lparr>ganttChart_P := ganttChart_P s @ [''IDLE''],
                                        currentTime := next\<rparr>)
                else Break (running, s))
      in case running of
           None \<Rightarrow> findNext
         | Some r \<Rightarrow>
             if \<not> isComplete (processes s ! r) \<and> \<not> preemptive s
             then let s1 = s\<lparr>processes := at r (\<lambda>p. snd (execute 1 p)) (processes s)\<rparr>;
                      s2 = s1\<lparr>ganttChart_P := ganttChart_P s1 @ [name (processes s1 ! r)],
                              currentTime := currentTime s1 + 1\<rparr>
                  in if isComplete (processes s2 ! r)
                     then Continue (None, s2\<lparr>processes :=
                                               at r (terminate (currentTime s2)) (processes s2)\<rparr>)
                     else Continue (Some r, s2)
             else findNext)"

definition prio_preemptive :: "nat option \<Rightarrow> nat \<Rightarrow> PriorityScheduler \<Rightarrow> prio_state loop_result" where
  "prio_preemptive running nextProcess s =
     (let (r, s1) =
            (case running of
               Some r \<Rightarrow>
                 if r \<noteq> nextProcess
                 then (if priority (processes s ! nextProcess) < priority (processes s ! r)
                       then (nextProcess,
                             contextSwitch (Some r) (Some nextProcess)
                               (s\<lparr>processes := at r (\<lambda>p. p\<lparr>state := READY\<rparr>) (processes s)\<rparr>))
                       else (r, s))
                 else (r, s)
             | None \<Rightarrow> (nextProcess, contextSwitch None (Some nextProcess) s));
          s2 = s1\<lparr>readyQueue_P := pq_pop (processes s1) (readyQueue_P s1)\<rparr>;
          s3 = s2\<lparr>processes := at r (\<lambda>p. snd (execute 1 p)) (processes s2)\<rparr>;
          s4 = s3\<lparr>ganttChart_P := ganttChart_P s3 @ [name (processes s3 ! r)]\<rparr>;
          s5 = s4\<lparr>processes := addWaitingToOthers r 1 (processes s4)\<rparr>;
          s6 = s5\<lparr>currentTime := currentTime s5 + 1\<rparr>
      in if isComplete (processes s6 ! r)
         then prio_end_of_body
                (None, s6\<lparr>processes := at r (terminate (currentTime s6)) (processes s6)\<rparr>)
         else prio_end_of_body (Some r, s6))"

definition prio_nonpreemptive :: "nat option \<Rightarrow> nat \<Rightarrow> PriorityScheduler \<Rightarrow> prio_state loop_result" where
  "prio_nonpreemptive running nextProcess s =
     (let s1 = s\<lparr>readyQueue_P := pq_pop (processes s) (readyQueue_P s)\<rparr>;
          s2 = contextSwitch running (Some nextProcess) s1;
          burstTime' = remainingTime (processes s2 ! nextProcess);
          s3 = s2\<lparr>processes := at nextProcess (\<lambda>p. snd (execute burstTime' p)) (processes s2)\<rparr>;
          s4 = s3\<lparr>ganttChart_P :=
                    pushTimes burstTime' (name (processes s3 ! nextProcess)) (ganttChart_P s3)\<rparr>;
          s5 = s4\<lparr>processes := addWaitingToOthers nextProcess burstTime' (processes s4)\<rparr>;
          s6 = s5\<lparr>currentTime := currentTime s5 + burstTime'\<rparr>;
          s7 = s6\<lparr>processes := at nextProcess (terminate (currentTime s6)) (processes s6)\<rparr>
      in prio_end_of_body (None, s7))"

text \<open>The cadence test and the call it guards (lines 57 to 60 of the source).\<close>

definition prio_aging_check :: "PriorityScheduler \<Rightarrow> error + PriorityScheduler" where
  "prio_aging_check s =
     (case cpp_rem (currentTime s) (agingInterval s) of
        Inl e \<Rightarrow> Inl e
      | Inr r \<Rightarrow> Inr (if r = 0 then prio_applyAging s else s))"

definition prio_iteration :: "prio_state \<Rightarrow> error + prio_state loop_result" where
  "prio_iteration = (\<lambda>(running, s0).
     let s1 = snd (admitArrivingProcesses s0)
     in case prio_aging_check s1 of
          Inl e \<Rightarrow> Inl e
        | Inr s2 \<Rightarrow>
            let s3 = s2\<lparr>readyQueue_P :=
                          filter (\<lambda>i. state (processes s2 ! i) = READY)
                                 [0..<length (processes s2)]\<rparr>
            in if readyQueue_P s3 = [] then Inr (prio_queue_empty running s3)
               else let nextProcess = pq_top (processes s3) (readyQueue_P s3)
                    in if preemptive s3 then Inr (prio_preemptive running nextProcess s3)
                       else Inr (prio_nonpreemptive running nextProcess s3))"

text \<open>
  \<open>None\<close>: the fuel ran out; \<open>Some (Inl e)\<close>: the run died of \<open>e\<close>;
  \<open>Some (Inr s)\<close>: \<open>schedule()\<close> returned in state \<open>s\<close>.
\<close>

fun prio_loop :: "nat \<Rightarrow> prio_state \<Rightarrow> (error + PriorityScheduler) option" where
  "prio_loop 0 st = None"
| "prio_loop (Suc n) st =
     (case prio_iteration st of
        Inl e \<Rightarrow> Some (Inl e)
      | Inr (Break (running, s)) \<Rightarrow> Some (Inr s)
      | Inr (Continue st') \<Rightarrow> prio_loop n st')"

definition prio_schedule :: "nat \<Rightarrow> PriorityScheduler \<Rightarrow> (error + PriorityScheduler) option" where
  "prio_schedule n s =
     prio_loop n (None, s\<lparr>currentTime := earliestArrival (processes s), ganttChart_P := []\<rparr>)"

section \<open>Multilevel queue (MultilevelQueueScheduler.h, MultilevelQueueScheduler.cpp)\<close>

datatype QueueSchedulingAlgorithm = FCFS | ROUND_ROBIN

record QueueConfig =
  qc_priority :: int
  qc_algorithm :: QueueSchedulingAlgorithm
  qc_timeQuantum :: int

text \<open>The default constructor \<open>QueueConfig()\<close>.\<close>

definition QueueConfig_default :: QueueConfig where
  "QueueConfig_default = \<lparr> qc_priority = 0, qc_algorithm = FCFS, qc_timeQuantum = 0 \<rparr>"

text \<open>
  \<open>std::map<int, QueueConfig>\<close> is iterated in key order, so it is an association list
  kept sorted by key, one entry per key. \<open>std::map<int, std::queue<...>>\<close> is only read
  through \<open>operator[]\<close>, which answers an empty queue for a missing key: a total function.
\<close>

fun map_assign :: "int \<Rightarrow> 'v \<Rightarrow> (int \<times> 'v) list \<Rightarrow> (int \<times> 'v) list" where
  "map_assign k v [] = [(k, v)]"
| "map_assign k v ((k', v') # m) =
     (if k < k' then (k, v) # (k', v') # m
      else if k = k' then (k, v) # m
      else (k', v') # map_assign k v m)"

record MultilevelQueueScheduler = Scheduler +
  queueConfigs :: "(int \<times> QueueConfig) list"
  queues_MLQ :: "int \<Rightarrow> nat list"
  ganttChart_MLQ :: "string list"

definition MultilevelQueueScheduler_init :: "int \<Rightarrow> MultilevelQueueScheduler" where
  "MultilevelQueueScheduler_init overhead =
     \<lparr> processes = [], currentTime = 0, contextSwitchOverhead = overhead,
       totalContextSwitches = 0, currentProcess = None,
       queueConfigs = [], queues_MLQ = (\<lambda>_. []), ganttChart_MLQ = [] \<rparr>"

definition addProcess :: "Process \<Rightarrow> 'a Scheduler_scheme \<Rightarrow> 'a Scheduler_scheme" where
  "addProcess p s = s\<lparr>processes := processes s @ [p]\<rparr>"

definition addQueueConfig :: "QueueConfig \<Rightarrow> MultilevelQueueScheduler \<Rightarrow> MultilevelQueueScheduler" where
  "addQueueConfig config s =
     s\<lparr>queueConfigs := map_assign (qc_priority config) config (queueConfigs s),
       queues_MLQ := (queues_MLQ s)(qc_priority config := [])\<rparr>"

definition mlq_getHighestPriorityQueue :: "MultilevelQueueScheduler \<Rightarrow> int" where
  "mlq_getHighestPriorityQueue s =
     (case find (\<lambda>pair. queues_MLQ s (fst pair) \<noteq> []) (queueConfigs s) of
        Some pair \<Rightarrow> fst pair
      | None \<Rightarrow> -1)"

text \<open>The queue a process belongs to, with the source's \<open>-1\<close> for "none".\<close>

definition mlq_targetQueue :: "(int \<times> QueueConfig) list \<Rightarrow> Process \<Rightarrow> int" where
  "mlq_targetQueue configs p =
     (let targetQueue = (case find (\<lambda>pair. priority p \<le> fst pair) configs of
                           Some pair \<Rightarrow> fst pair
                         | None \<Rightarrow> -1)
      in if targetQueue = -1 \<and> configs \<noteq> [] then fst (last configs) else targetQueue)"

definition mlq_enqueueOne ::
  "(int \<times> QueueConfig) list \<Rightarrow> int \<Rightarrow> nat option \<Rightarrow> nat \<Rightarrow>
   Process list \<times> (int \<Rightarrow> nat list) \<Rightarrow> Process list \<times> (int \<Rightarrow> nat list)" where
  "mlq_enqueueOne configs now skip i = (\<lambda>(ps, qs).
     if state (ps ! i) = READY \<and> Some i \<noteq> skip \<and> lastScheduledTime (ps ! i) < now
     then (let targetQueue = mlq_targetQueue configs (ps ! i)
           in if targetQueue \<noteq> -1
              then (if i \<in> set (qs targetQueue) then (ps, qs)
                    else (at i (\<lambda>p. p\<lparr>lastScheduledTime := now\<rparr>) ps,
                          qs(targetQueue := qs targetQueue @ [i])))
              else (ps, qs))
     else (ps, qs))"

definition mlq_enqueue :: "nat option \<Rightarrow> MultilevelQueueScheduler \<Rightarrow> MultilevelQueueScheduler" where
  "mlq_enqueue skip s =
     (let (ps, qs) = fold (mlq_enqueueOne (queueConfigs s) (currentTime s) skip)
                          [0..<length (processes s)] (processes s, queues_MLQ s)
      in s\<lparr>processes := ps, queues_MLQ := qs\<rparr>)"

text \<open>
  \<open>queueConfigs[queuePriority]\<close>: the key is always one that
  \<open>getHighestPriorityQueue\<close> found in \<open>queueConfigs\<close>, so \<open>operator[]\<close> never has to
  insert; the default it would insert is the fallback here.
\<close>

definition mlq_config :: "MultilevelQueueScheduler \<Rightarrow> int \<Rightarrow> QueueConfig" where
  "mlq_config s k = (case map_of (queueConfigs s) k of Some c \<Rightarrow> c | None \<Rightarrow> QueueConfig_default)"

definition scheduleFromQueue :: "int \<Rightarrow> nat \<Rightarrow> MultilevelQueueScheduler \<Rightarrow> MultilevelQueueScheduler" where
  "scheduleFromQueue queuePriority i s =
     (let config = mlq_config s queuePriority
      in case qc_algorithm config of
           FCFS \<Rightarrow>
             let burstTime' = remainingTime (processes s ! i);
                 s1 = s\<lparr>processes := at i (\<lambda>p. snd (execute burstTime' p)) (processes s)\<rparr>;
                 s2 = s1\<lparr>ganttChart_MLQ :=
                           pushTimes burstTime' (name (processes s1 ! i)) (ganttChart_MLQ s1)\<rparr>;
                 s3 = s2\<lparr>processes := addWaitingToOthers i burstTime' (processes s2)\<rparr>
             in s3\<lparr>currentTime := currentTime s3 + burstTime'\<rparr>
         | ROUND_ROBIN \<Rightarrow>
             let (executionTime, p') = execute (qc_timeQuantum config) (processes s ! i);
                 s1 = s\<lparr>processes := (processes s)[i := p'],
                         ganttChart_MLQ := pushTimes executionTime (name p') (ganttChart_MLQ s)\<rparr>;
                 s2 = s1\<lparr>processes := addWaitingToOthers i executionTime (processes s1)\<rparr>
             in s2\<lparr>currentTime := currentTime s2 + executionTime\<rparr>)"

definition mlq_dispatch :: "int \<Rightarrow> MultilevelQueueScheduler \<Rightarrow> MultilevelQueueScheduler loop_result" where
  "mlq_dispatch queueToSchedule s0 =
     (let i = hd (queues_MLQ s0 queueToSchedule);
          s1 = s0\<lparr>queues_MLQ := (queues_MLQ s0)(queueToSchedule := tl (queues_MLQ s0 queueToSchedule))\<rparr>;
          s2 = contextSwitch (currentProcess s1) (Some i) s1;
          s3 = scheduleFromQueue queueToSchedule i s2;
          s4 = (if isComplete (processes s3 ! i)
                then s3\<lparr>processes := at i (terminate (currentTime s3)) (processes s3)\<rparr>
                else
                  if qc_algorithm (mlq_config s3 queueToSchedule) = ROUND_ROBIN
                  then let a = s3\<lparr>processes := at i (\<lambda>p. p\<lparr>state := READY\<rparr>) (processes s3)\<rparr>;
                           b = snd (admitArrivingProcesses a);
                           c = mlq_enqueue (Some i) b
                       in c\<lparr>queues_MLQ :=
                               (queues_MLQ c)(queueToSchedule := queues_MLQ c queueToSchedule @ [i]),
                            processes :=
                               at i (\<lambda>p. p\<lparr>lastScheduledTime := currentTime c\<rparr>) (processes c)\<rparr>
                  else s3);
          s5 = s4\<lparr>currentProcess := None\<rparr>
      in if allTerminated (processes s5) then Break s5 else Continue s5)"

definition mlq_iteration :: "MultilevelQueueScheduler \<Rightarrow> MultilevelQueueScheduler loop_result" where
  "mlq_iteration s0 =
     (let s1 = snd (admitArrivingProcesses s0);
          s2 = mlq_enqueue None s1;
          queueToSchedule = mlq_getHighestPriorityQueue s2
      in if queueToSchedule = -1
         then (let next = nextArrival (processes s2)
               in if next \<noteq> INT_MAX
                  then Continue (s2\<lparr>ganttChart_MLQ := ganttChart_MLQ s2 @ [''IDLE''],
                                    currentTime := next\<rparr>)
                  else Break s2)
         else mlq_dispatch queueToSchedule s2)"

fun mlq_loop :: "nat \<Rightarrow> MultilevelQueueScheduler \<Rightarrow> MultilevelQueueScheduler option" where
  "mlq_loop 0 s = None"
| "mlq_loop (Suc n) s =
     (case mlq_iteration s of Break s' \<Rightarrow> Some s' | Continue s' \<Rightarrow> mlq_loop n s')"

definition mlq_schedule :: "nat \<Rightarrow> MultilevelQueueScheduler \<Rightarrow> MultilevelQueueScheduler option" where
  "mlq_schedule n s =
     mlq_loop n (s\<lparr>currentTime := earliestArrival (processes s), ganttChart_MLQ := []\<rparr>)"

section \<open>Multilevel feedback queue (MultilevelFeedbackQueueScheduler.h and .cpp)\<close>

text \<open>
  \<open>processQueueLevel\<close> and \<open>timeInQueue\<close> are \<open>std::map<int, int>\<close> keyed by PID and
  only read through \<open>operator[]\<close>, which answers 0 for a missing key: total functions that
  are 0 after \<open>clear()\<close>.
\<close>

record MultilevelFeedbackQueueScheduler = Scheduler +
  numQueues :: int
  timeQuantums :: "int list"
  queues_MLFQ :: "nat list list"
  processQueueLevel :: "int \<Rightarrow> int"
  ganttChart_MLFQ :: "string list"
  agingEnabled_MLFQ :: bool
  agingThreshold :: int
  timeInQueue :: "int \<Rightarrow> int"

text \<open>
  The constructor, followed by one \<open>addProcess\<close> per process. \<open>resize\<close> takes a
  \<open>size_t\<close>: a negative \<open>numQueues\<close> becomes a huge size and \<open>std::length_error\<close> is
  thrown.
\<close>

definition MultilevelFeedbackQueueScheduler_init ::
  "int \<Rightarrow> bool \<Rightarrow> int \<Rightarrow> int \<Rightarrow> Process list \<Rightarrow> error + MultilevelFeedbackQueueScheduler" where
  "MultilevelFeedbackQueueScheduler_init numQueues' enableAging agingThreshold' overhead ps =
     (if numQueues' < 0 then Inl LengthError
      else Inr \<lparr> processes = ps, currentTime = 0, contextSwitchOverhead = overhead,
                 totalContextSwitches = 0, currentProcess = None,
                 numQueues = numQueues',
                 timeQuantums = map (\<lambda>i. 2 * (int i + 1)) [0..<nat numQueues'],
                 queues_MLFQ = replicate (nat numQueues') [],
                 processQueueLevel = (\<lambda>_. 0), ganttChart_MLFQ = [],
                 agingEnabled_MLFQ = enableAging, agingThreshold = agingThreshold',
                 timeInQueue = (\<lambda>_. 0) \<rparr>)"

definition setTimeQuantum ::
  "int \<Rightarrow> int \<Rightarrow> MultilevelFeedbackQueueScheduler \<Rightarrow> MultilevelFeedbackQueueScheduler" where
  "setTimeQuantum queueIndex quantum s =
     (if queueIndex \<ge> 0 \<and> queueIndex < numQueues s
      then s\<lparr>timeQuantums := (timeQuantums s)[nat queueIndex := quantum]\<rparr>
      else s)"

definition mlfq_getHighestPriorityQueue :: "MultilevelFeedbackQueueScheduler \<Rightarrow> int" where
  "mlfq_getHighestPriorityQueue s =
     (case find (\<lambda>i. queues_MLFQ s ! i \<noteq> []) [0..<nat (numQueues s)] of
        Some i \<Rightarrow> int i
      | None \<Rightarrow> -1)"

definition demoteProcess ::
  "nat \<Rightarrow> MultilevelFeedbackQueueScheduler \<Rightarrow> MultilevelFeedbackQueueScheduler" where
  "demoteProcess i s =
     (let pid' = pid (processes s ! i);
          currentLevel = processQueueLevel s pid'
      in if currentLevel < numQueues s - 1
         then s\<lparr>processQueueLevel := (processQueueLevel s)(pid' := currentLevel + 1),
                timeInQueue := (timeInQueue s)(pid' := 0)\<rparr>
         else s)"

definition promoteProcess ::
  "nat \<Rightarrow> MultilevelFeedbackQueueScheduler \<Rightarrow> MultilevelFeedbackQueueScheduler" where
  "promoteProcess i s =
     (let pid' = pid (processes s ! i);
          currentLevel = processQueueLevel s pid'
      in if currentLevel > 0
         then s\<lparr>processQueueLevel := (processQueueLevel s)(pid' := currentLevel - 1),
                timeInQueue := (timeInQueue s)(pid' := 0)\<rparr>
         else s)"

definition mlfq_ageOne ::
  "nat \<Rightarrow> MultilevelFeedbackQueueScheduler \<Rightarrow> MultilevelFeedbackQueueScheduler" where
  "mlfq_ageOne i s =
     (if state (processes s ! i) = READY
      then (let pid' = pid (processes s ! i);
                s1 = s\<lparr>timeInQueue := (timeInQueue s)(pid' := timeInQueue s pid' + 1)\<rparr>
            in if timeInQueue s1 pid' \<ge> agingThreshold s1 then promoteProcess i s1 else s1)
      else s)"

definition mlfq_applyAging ::
  "MultilevelFeedbackQueueScheduler \<Rightarrow> MultilevelFeedbackQueueScheduler" where
  "mlfq_applyAging s =
     (if \<not> agingEnabled_MLFQ s then s
      else fold mlfq_ageOne [0..<length (processes s)] s)"

definition mlfq_aging_check ::
  "MultilevelFeedbackQueueScheduler \<Rightarrow> error + MultilevelFeedbackQueueScheduler" where
  "mlfq_aging_check s =
     (case cpp_rem (currentTime s) (agingThreshold s) of
        Inl e \<Rightarrow> Inl e
      | Inr r \<Rightarrow> Inr (if r = 0 then mlfq_applyAging s else s))"

text \<open>
  The enqueue loop. \<open>queues[queueLevel]\<close> indexes a \<open>std::vector\<close>: outside it the run is
  undefined, here \<open>OutOfRange\<close>.
\<close>

definition mlfq_enqueueOne ::
  "(int \<Rightarrow> int) \<Rightarrow> int \<Rightarrow> nat option \<Rightarrow> nat \<Rightarrow>
   error + Process list \<times> nat list list \<Rightarrow> error + Process list \<times> nat list list" where
  "mlfq_enqueueOne level now skip i acc =
     (case acc of
        Inl e \<Rightarrow> Inl e
      | Inr (ps, qs) \<Rightarrow>
          if state (ps ! i) = READY \<and> Some i \<noteq> skip \<and> lastScheduledTime (ps ! i) < now
          then (let queueLevel = level (pid (ps ! i))
                in if 0 \<le> queueLevel \<and> queueLevel < int (length qs)
                   then (if i \<in> set (qs ! nat queueLevel) then Inr (ps, qs)
                         else Inr (at i (\<lambda>p. p\<lparr>lastScheduledTime := now\<rparr>) ps,
                                   qs[nat queueLevel := qs ! nat queueLevel @ [i]]))
                   else Inl OutOfRange)
          else Inr (ps, qs))"

definition mlfq_enqueue ::
  "nat option \<Rightarrow> MultilevelFeedbackQueueScheduler \<Rightarrow> error + MultilevelFeedbackQueueScheduler" where
  "mlfq_enqueue skip s =
     (case fold (mlfq_enqueueOne (processQueueLevel s) (currentTime s) skip)
                [0..<length (processes s)] (Inr (processes s, queues_MLFQ s)) of
        Inl e \<Rightarrow> Inl e
      | Inr (ps, qs) \<Rightarrow> Inr (s\<lparr>processes := ps, queues_MLFQ := qs\<rparr>))"

text \<open>
  The \<open>else\<close> branch of the completion test: the process goes back to \<open>READY\<close>, is demoted
  if it used its whole quantum, and is queued again at its level.
\<close>

definition mlfq_requeue ::
  "nat \<Rightarrow> int \<Rightarrow> int \<Rightarrow> MultilevelFeedbackQueueScheduler \<Rightarrow> error + MultilevelFeedbackQueueScheduler" where
  "mlfq_requeue i executionTime quantum s =
     (let a = s\<lparr>processes := at i (\<lambda>p. p\<lparr>state := READY\<rparr>) (processes s)\<rparr>;
          b = (if executionTime = quantum then demoteProcess i a else a);
          c = snd (admitArrivingProcesses b)
      in case mlfq_enqueue (Some i) c of
           Inl e \<Rightarrow> Inl e
         | Inr d \<Rightarrow>
             let newLevel = processQueueLevel d (pid (processes d ! i))
             in if 0 \<le> newLevel \<and> newLevel < int (length (queues_MLFQ d))
                then Inr (d\<lparr>queues_MLFQ :=
                              (queues_MLFQ d)[nat newLevel := queues_MLFQ d ! nat newLevel @ [i]],
                            processes :=
                              at i (\<lambda>p. p\<lparr>lastScheduledTime := currentTime d\<rparr>) (processes d)\<rparr>)
                else Inl OutOfRange)"

text \<open>
  The first half of a dispatch: the head of the chosen queue is popped, switched to and run
  for its quantum. The result is the process, the quantum, the time executed and the state.
\<close>

definition mlfq_slice ::
  "nat \<Rightarrow> MultilevelFeedbackQueueScheduler \<Rightarrow>
   nat \<times> int \<times> int \<times> MultilevelFeedbackQueueScheduler" where
  "mlfq_slice queueToSchedule s0 =
     (let i = hd (queues_MLFQ s0 ! queueToSchedule);
          s1 = s0\<lparr>queues_MLFQ :=
                    (queues_MLFQ s0)[queueToSchedule := tl (queues_MLFQ s0 ! queueToSchedule)]\<rparr>;
          s2 = contextSwitch (currentProcess s1) (Some i) s1;
          quantum = timeQuantums s2 ! queueToSchedule;
          (executionTime, p') = execute quantum (processes s2 ! i);
          s3 = s2\<lparr>processes := (processes s2)[i := p'],
                  ganttChart_MLFQ := pushTimes executionTime (name p') (ganttChart_MLFQ s2)\<rparr>;
          s4 = s3\<lparr>processes := addWaitingToOthers i executionTime (processes s3)\<rparr>;
          s5 = s4\<lparr>currentTime := currentTime s4 + executionTime\<rparr>
      in (i, quantum, executionTime, s5))"

text \<open>The second half: completion or re-queueing, and the test that ends the loop body.\<close>

definition mlfq_dispatch ::
  "nat \<Rightarrow> MultilevelFeedbackQueueScheduler \<Rightarrow>
   error + MultilevelFeedbackQueueScheduler loop_result" where
  "mlfq_dispatch queueToSchedule s0 =
     (let (i, quantum, executionTime, s5) = mlfq_slice queueToSchedule s0
      in case (if isComplete (processes s5 ! i)
               then Inr (s5\<lparr>processes := at i (terminate (currentTime s5)) (processes s5)\<rparr>)
               else mlfq_requeue i executionTime quantum s5) of
           Inl e \<Rightarrow> Inl e
         | Inr s6 \<Rightarrow>
             let s7 = s6\<lparr>currentProcess := None\<rparr>
             in if allTerminated (processes s7) then Inr (Break s7) else Inr (Continue s7))"

text \<open>The loop body up to the choice of the queue: admission, aging, enqueueing.\<close>

definition mlfq_prepare ::
  "MultilevelFeedbackQueueScheduler \<Rightarrow> error + MultilevelFeedbackQueueScheduler" where
  "mlfq_prepare s0 =
     (let s1 = snd (admitArrivingProcesses s0)
      in case mlfq_aging_check s1 of
           Inl e \<Rightarrow> Inl e
         | Inr s2 \<Rightarrow> mlfq_enqueue None s2)"

definition mlfq_iteration ::
  "MultilevelFeedbackQueueScheduler \<Rightarrow> error + MultilevelFeedbackQueueScheduler loop_result" where
  "mlfq_iteration s0 =
     (case mlfq_prepare s0 of
        Inl e \<Rightarrow> Inl e
      | Inr s3 \<Rightarrow>
          let queueToSchedule = mlfq_getHighestPriorityQueue s3
          in if queueToSchedule = -1
             then (let next = nextArrival (processes s3)
                   in if next \<noteq> INT_MAX
                      then Inr (Continue (s3\<lparr>ganttChart_MLFQ := ganttChart_MLFQ s3 @ [''IDLE''],
                                             currentTime := next\<rparr>))
                      else Inr (Break s3))
             else mlfq_dispatch (nat queueToSchedule) s3)"

fun mlfq_loop ::
  "nat \<Rightarrow> MultilevelFeedbackQueueScheduler \<Rightarrow> (error + MultilevelFeedbackQueueScheduler) option" where
  "mlfq_loop 0 s = None"
| "mlfq_loop (Suc n) s =
     (case mlfq_iteration s of
        Inl e \<Rightarrow> Some (Inl e)
      | Inr (Break s') \<Rightarrow> Some (Inr s')
      | Inr (Continue s') \<Rightarrow> mlfq_loop n s')"

text \<open>What \<open>schedule()\<close> does before its loop.\<close>

definition mlfq_start :: "MultilevelFeedbackQueueScheduler \<Rightarrow> MultilevelFeedbackQueueScheduler" where
  "mlfq_start s =
     s\<lparr>currentTime := earliestArrival (processes s), ganttChart_MLFQ := [],
       processQueueLevel := (\<lambda>_. 0), timeInQueue := (\<lambda>_. 0)\<rparr>"

definition mlfq_schedule ::
  "nat \<Rightarrow> MultilevelFeedbackQueueScheduler \<Rightarrow> (error + MultilevelFeedbackQueueScheduler) option" where
  "mlfq_schedule n s = mlfq_loop n (mlfq_start s)"

section \<open>Concrete workloads\<close>

text \<open>A running process and a process that has not been scheduled yet, at time 10.\<close>

definition switch_example :: Scheduler where
  "switch_example =
     \<lparr> processes = [(Process_init 1 ''P1'' 0 8 3)\<lparr>state := RUNNING, startTime := 0,
                                                     firstSchedule := False\<rparr>,
                     (Process_init 2 ''P2'' 1 4 1)\<lparr>state := READY\<rparr>],
       currentTime = 10, contextSwitchOverhead = 2, totalContextSwitches = 0,
       currentProcess = Some 0 \<rparr>"

text \<open>
  The state at the loop test after \<open>n\<close> passes through the body of the Round Robin loop,
  while the loop is still running.
\<close>

fun rr_after :: "nat \<Rightarrow> RoundRobinScheduler \<Rightarrow> RoundRobinScheduler option" where
  "rr_after 0 s = Some s"
| "rr_after (Suc n) s =
     (case rr_iteration s of Continue s' \<Rightarrow> rr_after n s' | Break s' \<Rightarrow> None)"

text \<open>Round Robin, quantum 2, no overhead, \<open>P1(0,4)\<close> and \<open>P2(0,4)\<close>.\<close>

definition rr_two :: RoundRobinScheduler where
  "rr_two = RoundRobinScheduler_init 2 0
     [Process_init 1 ''P1'' 0 4 0, Process_init 2 ''P2'' 0 4 0]"

text \<open>The workloads of \<open>test_round_robin_basic\<close>, \<open>test_multilevel_queue\<close> and
  \<open>test_priority_preemptive\<close> in test\_scheduler.cpp, and a three-level feedback queue
  without aging on \<open>P1(0,10)\<close>, \<open>P2(0,3)\<close>.\<close>

definition rr_same_arrival :: RoundRobinScheduler where
  "rr_same_arrival = RoundRobinScheduler_init 4 0
     [Process_init 1 ''P1'' 0 8 0, Process_init 2 ''P2'' 0 4 0, Process_init 3 ''P3'' 0 2 0]"

definition mlq_same_arrival :: MultilevelQueueScheduler where
  "mlq_same_arrival =
     fold addProcess
       [Process_init 1 ''P1'' 0 6 0, Process_init 2 ''P2'' 0 4 1, Process_init 3 ''P3'' 0 2 2]
       (fold addQueueConfig
          [\<lparr>qc_priority = 0, qc_algorithm = ROUND_ROBIN, qc_timeQuantum = 2\<rparr>,
           \<lparr>qc_priority = 1, qc_algorithm = ROUND_ROBIN, qc_timeQuantum = 4\<rparr>,
           \<lparr>qc_priority = 2, qc_algorithm = FCFS, qc_timeQuantum = 0\<rparr>]
          (MultilevelQueueScheduler_init 0))"

definition mlfq_same_arrival :: MultilevelFeedbackQueueScheduler where
  "mlfq_same_arrival =
     projr (MultilevelFeedbackQueueScheduler_init 3 False 10 0
              [Process_init 1 ''P1'' 0 10 0, Process_init 2 ''P2'' 0 3 0])"

definition prio_preemptive_three :: PriorityScheduler where
  "prio_preemptive_three = PriorityScheduler_init True False 5 0
     [Process_init 1 ''P1'' 0 8 3, Process_init 2 ''P2'' 1 4 1, Process_init 3 ''P3'' 5 2 2]"

text \<open>Non-preemptive Priority, no aging (interval 5, as in \<open>test_priority_non_preemptive\<close>),
  no overhead, \<open>P1(0,5,3)\<close>, \<open>P2(1,3,1)\<close>, \<open>P3(2,2,2)\<close>.\<close>

definition prio_three :: PriorityScheduler where
  "prio_three = PriorityScheduler_init False False 5 0
     [Process_init 1 ''P1'' 0 5 3, Process_init 2 ''P2'' 1 3 1, Process_init 3 ''P3'' 2 2 2]"



text \<open>The scheduler state a pass through a loop body ends in.\<close>

definition loop_state :: "'a loop_result \<Rightarrow> 'a" where
  "loop_state r = (case r of Continue s \<Rightarrow> s | Break s \<Rightarrow> s)"

text \<open>The state at the loop test after \<open>n\<close> passes of the Priority loop, while it is
  still running.\<close>

fun prio_after :: "nat \<Rightarrow> prio_state \<Rightarrow> prio_state option" where
  "prio_after 0 st = Some st"
| "prio_after (Suc n) st =
     (case prio_iteration st of Inr (Continue st') \<Rightarrow> prio_after n st' | _ \<Rightarrow> None)"

text \<open>
  The workload of \<open>test_priority_aging\<close>: non-preemptive Priority with aging every 3 units.
  \<open>prio_aging_pass1\<close> and \<open>prio_aging_pass3\<close> are the states in which the first and the
  third pass through the loop reach the cadence test, at times 0 and 12.
\<close>

definition prio_aging :: PriorityScheduler where
  "prio_aging = PriorityScheduler_init False True 3 0
     [Process_init 1 ''P1'' 0 10 5, Process_init 2 ''P2'' 1 2 1, Process_init 3 ''P3'' 2 2 1]"

definition prio_aging_start :: prio_state where
  "prio_aging_start =
     (None, prio_aging\<lparr>currentTime := earliestArrival (processes prio_aging),
                        ganttChart_P := []\<rparr>)"

definition prio_aging_pass1 :: PriorityScheduler where
  "prio_aging_pass1 = snd (admitArrivingProcesses (snd prio_aging_start))"

definition prio_aging_pass3 :: PriorityScheduler where
  "prio_aging_pass3 = snd (admitArrivingProcesses (snd (the (prio_after 2 prio_aging_start))))"

text \<open>
  How the priority values of a process list can differ after aging steps: process by
  process, no value has gone up, none that was at least 0 is below 0, and none that was at
  most 0 has changed.
\<close>

definition priorities_aged :: "Process list \<Rightarrow> Process list \<Rightarrow> bool" where
  "priorities_aged ps ps' \<longleftrightarrow>
     length ps' = length ps \<and>
     (\<forall>i<length ps. priority (ps' ! i) \<le> priority (ps ! i) \<and>
                     (0 \<le> priority (ps ! i) \<longrightarrow> 0 \<le> priority (ps' ! i)) \<and>
                     (priority (ps ! i) \<le> 0 \<longrightarrow> priority (ps' ! i) = priority (ps ! i)))"

text \<open>The state at the loop test after \<open>n\<close> passes of the feedback-queue loop, while
  it is still running.\<close>

fun mlfq_after ::
  "nat \<Rightarrow> MultilevelFeedbackQueueScheduler \<Rightarrow> MultilevelFeedbackQueueScheduler option" where
  "mlfq_after 0 s = Some s"
| "mlfq_after (Suc n) s =
     (case mlfq_iteration s of Inr (Continue s') \<Rightarrow> mlfq_after n s' | _ \<Rightarrow> None)"

text \<open>
  A feedback queue with a single level (quantum 2), aging at every time unit, on
  \<open>P1(0,5)\<close>, \<open>P2(1,1)\<close>; \<open>mlfq_one_level_pass2\<close> is the state in which the second pass
  dispatches \<open>P1\<close>. The constructor succeeds on these arguments, so \<open>projr\<close> is its result.
\<close>

definition mlfq_one_level :: MultilevelFeedbackQueueScheduler where
  "mlfq_one_level =
     mlfq_start (projr (MultilevelFeedbackQueueScheduler_init 1 True 1 0
                          [Process_init 1 ''P1'' 0 5 0, Process_init 2 ''P2'' 1 1 0]))"

definition mlfq_one_level_pass2 :: MultilevelFeedbackQueueScheduler where
  "mlfq_one_level_pass2 = projr (mlfq_prepare (the (mlfq_after 1 mlfq_one_level)))"

text \<open>
  The workload and quanta of \<open>test_mlfq_basic\<close> (three levels, no aging). The second pass
  dispatches \<open>P1\<close> from level 0 with 10 units left and quantum 2; the seventh dispatches
  \<open>P3\<close> from level 1 with 4 units left and quantum 4.
\<close>

definition mlfq_three :: MultilevelFeedbackQueueScheduler where
  "mlfq_three =
     mlfq_start
       (setTimeQuantum 2 8 (setTimeQuantum 1 4 (setTimeQuantum 0 2
          (projr (MultilevelFeedbackQueueScheduler_init 3 False 10 0
                    [Process_init 1 ''P1'' 0 10 0, Process_init 2 ''P2'' 1 3 0,
                     Process_init 3 ''P3'' 2 6 0])))))"

definition mlfq_three_pass2 :: MultilevelFeedbackQueueScheduler where
  "mlfq_three_pass2 = projr (mlfq_prepare (the (mlfq_after 1 mlfq_three)))"

definition mlfq_three_pass7 :: MultilevelFeedbackQueueScheduler where
  "mlfq_three_pass7 = projr (mlfq_prepare (the (mlfq_after 6 mlfq_three)))"

text \<open>
  The workload of \<open>test_round_robin_arrivals\<close> (quantum 3), and the queues of
  \<open>test_multilevel_queue\<close> with arrivals at 0, 1 and 2.
\<close>

definition rr_arrivals :: RoundRobinScheduler where
  "rr_arrivals = RoundRobinScheduler_init 3 0
     [Process_init 1 ''P1'' 0 6 0, Process_init 2 ''P2'' 2 4 0, Process_init 3 ''P3'' 4 2 0]"

definition mlq_arrivals :: MultilevelQueueScheduler where
  "mlq_arrivals =
     fold addProcess
       [Process_init 1 ''P1'' 0 6 0, Process_init 2 ''P2'' 1 4 1, Process_init 3 ''P3'' 2 2 2]
       (fold addQueueConfig
          [\<lparr>qc_priority = 0, qc_algorithm = ROUND_ROBIN, qc_timeQuantum = 2\<rparr>,
           \<lparr>qc_priority = 1, qc_algorithm = ROUND_ROBIN, qc_timeQuantum = 4\<rparr>,
           \<lparr>qc_priority = 2, qc_algorithm = FCFS, qc_timeQuantum = 0\<rparr>]
          (MultilevelQueueScheduler_init 0))"





section \<open>Properties of the process record\<close>

lemma apply_op_static:
  "pid (apply_op x p) = pid p" "name (apply_op x p) = name p"
  "arrivalTime (apply_op x p) = arrivalTime p" "burstTime (apply_op x p) = burstTime p"
  by (cases x; simp add: execute_def Let_def addWaitingTime_def calculateMetrics_def reset_def)+

lemma run_ops_static:
  "pid (run_ops ops p) = pid p \<and> name (run_ops ops p) = name p \<and>
   arrivalTime (run_ops ops p) = arrivalTime p \<and> burstTime (run_ops ops p) = burstTime p"
  unfolding run_ops_def
  by (induction ops arbitrary: p) (simp_all add: apply_op_static)

lemma apply_op_in_bounds:
  "nonneg_request x \<Longrightarrow> remaining_in_bounds p \<Longrightarrow> remaining_in_bounds (apply_op x p)"
  by (cases x)
     (auto simp: remaining_in_bounds_def execute_def Let_def addWaitingTime_def
        calculateMetrics_def reset_def min_def)

lemma run_ops_in_bounds:
  "list_all nonneg_request ops \<Longrightarrow> remaining_in_bounds p \<Longrightarrow> remaining_in_bounds (run_ops ops p)"
  unfolding run_ops_def
  by (induction ops arbitrary: p) (simp_all add: apply_op_in_bounds)

text \<open>
  C8, as stated: for every process, as long as \<open>execute\<close> is only called with
  non-negative arguments, \<open>0 \<le> remainingTime \<le> burstTime\<close> holds after every operation.
  The constructor accepts any burst time and copies it into \<open>remainingTime\<close>; for
  \<open>Process(1, "P1", 0, -5, 0)\<close> the bound fails after \<open>addWaitingTime(2)\<close>
  (remaining time \<open>-5\<close>) and still fails after \<open>execute(3)\<close>, which returns
  \<open>min(3, -5) = -5\<close> and leaves remaining time \<open>0 > burstTime\<close>.
\<close>

theorem negative_burst_out_of_bounds_counterexample:
  "list_all nonneg_request [AddWaitingTime 2, Execute 3] \<and>
   remainingTime (run_ops [AddWaitingTime 2] (Process_init 1 ''P1'' 0 (- 5) 0)) = - 5 \<and>
   \<not> remaining_in_bounds (run_ops [AddWaitingTime 2] (Process_init 1 ''P1'' 0 (- 5) 0)) \<and>
   fst (execute 3 (run_ops [AddWaitingTime 2] (Process_init 1 ''P1'' 0 (- 5) 0))) = - 5 \<and>
   remainingTime (run_ops [AddWaitingTime 2, Execute 3] (Process_init 1 ''P1'' 0 (- 5) 0)) = 0 \<and>
   burstTime (run_ops [AddWaitingTime 2, Execute 3] (Process_init 1 ''P1'' 0 (- 5) 0)) = - 5 \<and>
   \<not> remaining_in_bounds (run_ops [AddWaitingTime 2, Execute 3] (Process_init 1 ''P1'' 0 (- 5) 0))"
  by (simp add: run_ops_def remaining_in_bounds_def execute_def Let_def addWaitingTime_def
        Process_init_def)

text \<open>
  C8, amended: for every process and every requested amount, \<open>execute(units)\<close> returns
  \<open>min(units, remainingTime)\<close> and lowers \<open>remainingTime\<close> by exactly the returned
  amount. Consequently, when \<open>execute\<close> is only ever called with non-negative arguments,
  \<open>0 \<le> remainingTime \<le> burstTime\<close> holds after every sequence of operations (setters,
  \<open>execute\<close>, \<open>addWaitingTime\<close>, \<open>calculateMetrics\<close>, \<open>reset\<close>) on a process that
  was constructed with a burst time of at least 0, and on no other process.
\<close>

theorem execute_min_remaining_in_bounds:
  "fst (execute units p) = min units (remainingTime p) \<and>
   remainingTime (snd (execute units p)) = remainingTime p - fst (execute units p) \<and>
   (list_all nonneg_request ops \<longrightarrow>
      (remaining_in_bounds (run_ops ops (Process_init i n a b pr)) \<longleftrightarrow> 0 \<le> b))"
proof -
  have init: "remaining_in_bounds (Process_init i n a b pr)" if "0 \<le> b"
    using that by (simp add: remaining_in_bounds_def Process_init_def)
  have conv: "0 \<le> b" if "remaining_in_bounds (run_ops ops (Process_init i n a b pr))"
  proof -
    have "burstTime (run_ops ops (Process_init i n a b pr)) = b"
      using run_ops_static [of ops "Process_init i n a b pr"] by (simp add: Process_init_def)
    then show ?thesis
      using that by (simp add: remaining_in_bounds_def)
  qed
  have "remaining_in_bounds (run_ops ops (Process_init i n a b pr)) \<longleftrightarrow> 0 \<le> b"
    if "list_all nonneg_request ops"
    using that init conv run_ops_in_bounds [of ops "Process_init i n a b pr"] by blast
  then show ?thesis
    by (simp add: execute_def Let_def)
qed

theorem execute_min_remaining_in_bounds_witness:
  "(0::int) \<le> 10 \<and> list_all nonneg_request [SetState READY, Execute 4, AddWaitingTime 3, Execute 7] \<and>
   fst (execute 7 (Process_init 1 ''P1'' 0 5 2)) = 5 \<and>
   remaining_in_bounds
     (run_ops [SetState READY, Execute 4, AddWaitingTime 3, Execute 7] (Process_init 1 ''P1'' 0 10 2))"
  using execute_min_remaining_in_bounds
          [of 7 "Process_init 1 ''P1'' 0 5 2"
              "[SetState READY, Execute 4, AddWaitingTime 3, Execute 7]" 1 "''P1''" 0 10 2]
  by (simp add: Process_init_def)

text \<open>
  C5, as stated: \<open>reset\<close> after run-time mutations gives back the constructed process,
  including its constructed priority. It fails once aging has lowered the priority:
  \<open>reset\<close> does not touch the \<open>priority\<close> field.
\<close>

theorem reset_keeps_aged_priority_counterexample:
  "reset (run_ops [SetState READY, SetPriority 2, AddWaitingTime 5] (Process_init 1 ''P1'' 0 10 3))
     \<noteq> Process_init 1 ''P1'' 0 10 3"
  by (simp add: reset_def run_ops_def addWaitingTime_def Process_init_def)

text \<open>
  C5, amended: after every sequence of run-time mutations, \<open>reset\<close> restores every field to
  its value just after construction except \<open>priority\<close>, which keeps the value it had
  before the call.
\<close>

theorem reset_restores_all_but_priority:
  "reset (run_ops ops (Process_init i n a b pr)) =
     (Process_init i n a b pr)\<lparr>priority := priority (run_ops ops (Process_init i n a b pr))\<rparr>"
proof -
  have "reset q = (Process_init (pid q) (name q) (arrivalTime q) (burstTime q) (priority q))" for q
    by (simp add: reset_def Process_init_def)
  then show ?thesis
    using run_ops_static [of ops "Process_init i n a b pr"]
    by (simp add: Process_init_def)
qed

section \<open>Context switches\<close>

lemma at_length [simp]: "length (at i f ps) = length ps"
  by (simp add: at_def)

lemma at_nth: "k < length ps \<Longrightarrow> at i f ps ! k = (if k = i then f (ps ! k) else ps ! k)"
  by (simp add: at_def nth_list_update)

lemma cs_tcs:
  "totalContextSwitches (contextSwitch from to s) =
     totalContextSwitches s + (if from \<noteq> to \<and> from \<noteq> None \<and> to \<noteq> None then 1 else 0)"
  by (simp add: contextSwitch_def Let_def split: option.split)

lemma cs_time:
  "currentTime (contextSwitch from to s) =
     currentTime s + (if from \<noteq> to \<and> from \<noteq> None \<and> to \<noteq> None then contextSwitchOverhead s else 0)"
  by (simp add: contextSwitch_def Let_def split: option.split)

lemma cs_cur: "currentProcess (contextSwitch from to s) = to"
  by (simp add: contextSwitch_def Let_def split: option.split)

lemma cs_procs:
  "processes (contextSwitch from to s) =
     (let ps1 = (case from of None \<Rightarrow> processes s
                 | Some f \<Rightarrow> if state (processes s ! f) = RUNNING
                             then at f (\<lambda>p. p\<lparr>state := READY\<rparr>) (processes s) else processes s)
      in case to of None \<Rightarrow> ps1
         | Some t \<Rightarrow>
             let ps2 = at t (\<lambda>p. p\<lparr>state := RUNNING\<rparr>) ps1
             in if firstSchedule (ps2 ! t)
                then at t (\<lambda>p. p\<lparr>startTime := currentTime (contextSwitch from to s),
                                  firstSchedule := False\<rparr>) ps2
                else ps2)"
  by (simp add: contextSwitch_def Let_def split: option.split)

lemma cs_length: "length (processes (contextSwitch from to s)) = length (processes s)"
  by (simp add: cs_procs Let_def split: option.split)

lemma cs_other:
  "k < length (processes s) \<Longrightarrow> Some k \<noteq> from \<Longrightarrow> Some k \<noteq> to \<Longrightarrow>
   processes (contextSwitch from to s) ! k = processes s ! k"
  by (cases "from"; cases to) (simp_all add: cs_procs Let_def at_nth)

lemma cs_from:
  "f < length (processes s) \<Longrightarrow> to \<noteq> Some f \<Longrightarrow>
   processes (contextSwitch (Some f) to s) ! f =
     (if state (processes s ! f) = RUNNING then (processes s ! f)\<lparr>state := READY\<rparr>
      else processes s ! f)"
  by (cases to) (simp_all add: cs_procs Let_def at_nth)

lemma cs_to:
  "t < length (processes s) \<Longrightarrow> \<forall>f. from = Some f \<longrightarrow> f < length (processes s) \<Longrightarrow>
   processes (contextSwitch from (Some t) s) ! t =
     (if firstSchedule (processes s ! t)
      then (processes s ! t)\<lparr>state := RUNNING,
              startTime := currentTime (contextSwitch from (Some t) s), firstSchedule := False\<rparr>
      else (processes s ! t)\<lparr>state := RUNNING\<rparr>)"
  by (cases "from") (simp_all add: cs_procs Let_def at_nth)


text \<open>
  C7. \<open>contextSwitch(from, to)\<close>, for pointers to processes of the scheduler: the counter
  goes up by one and the clock by \<open>contextSwitchOverhead\<close> exactly when \<open>from\<close> and
  \<open>to\<close> are distinct and both non-null, otherwise neither changes; a \<open>from\<close> that was
  \<open>RUNNING\<close> becomes \<open>READY\<close> (when \<open>from\<close> and \<open>to\<close> are the same process, the
  assignment of \<open>RUNNING\<close> that follows is the one that stays); \<open>to\<close> becomes
  \<open>RUNNING\<close>, and on its first selection its \<open>startTime\<close> is the clock after the overhead
  was added. No other process changes.
\<close>

theorem contextSwitch_effect:
  assumes "\<forall>f. from = Some f \<longrightarrow> f < length (processes s)"
      and "\<forall>t. to = Some t \<longrightarrow> t < length (processes s)"
  shows "totalContextSwitches (contextSwitch from to s) =
           totalContextSwitches s + (if from \<noteq> to \<and> from \<noteq> None \<and> to \<noteq> None then 1 else 0) \<and>
         currentTime (contextSwitch from to s) =
           currentTime s +
             (if from \<noteq> to \<and> from \<noteq> None \<and> to \<noteq> None then contextSwitchOverhead s else 0) \<and>
         currentProcess (contextSwitch from to s) = to \<and>
         length (processes (contextSwitch from to s)) = length (processes s) \<and>
         (\<forall>f. from = Some f \<and> from \<noteq> to \<longrightarrow>
            processes (contextSwitch from to s) ! f =
              (if state (processes s ! f) = RUNNING then (processes s ! f)\<lparr>state := READY\<rparr>
               else processes s ! f)) \<and>
         (\<forall>t. to = Some t \<longrightarrow>
            processes (contextSwitch from to s) ! t =
              (if firstSchedule (processes s ! t)
               then (processes s ! t)\<lparr>state := RUNNING,
                       startTime := currentTime (contextSwitch from to s), firstSchedule := False\<rparr>
               else (processes s ! t)\<lparr>state := RUNNING\<rparr>)) \<and>
         (\<forall>k < length (processes s). Some k \<noteq> from \<and> Some k \<noteq> to \<longrightarrow>
            processes (contextSwitch from to s) ! k = processes s ! k)"
proof (intro conjI allI impI)
  fix f assume "from = Some f \<and> from \<noteq> to"
  with assms(1) show "processes (contextSwitch from to s) ! f =
      (if state (processes s ! f) = RUNNING then (processes s ! f)\<lparr>state := READY\<rparr>
       else processes s ! f)"
    using cs_from [of f s to] by auto
next
  fix t assume "to = Some t"
  with assms show "processes (contextSwitch from to s) ! t =
      (if firstSchedule (processes s ! t)
       then (processes s ! t)\<lparr>state := RUNNING,
               startTime := currentTime (contextSwitch from to s), firstSchedule := False\<rparr>
       else (processes s ! t)\<lparr>state := RUNNING\<rparr>)"
    using cs_to [of t s "from"] by simp
next
  fix k assume "k < length (processes s)" "Some k \<noteq> from \<and> Some k \<noteq> to"
  then show "processes (contextSwitch from to s) ! k = processes s ! k"
    by (simp add: cs_other)
qed (simp_all only: cs_tcs cs_time cs_cur cs_length)

theorem contextSwitch_effect_witness:
  "0 < length (processes switch_example) \<and> 1 < length (processes switch_example) \<and>
   totalContextSwitches (contextSwitch (Some 0) (Some 1) switch_example) = 1 \<and>
   currentTime (contextSwitch (Some 0) (Some 1) switch_example) = 12 \<and>
   state (processes (contextSwitch (Some 0) (Some 1) switch_example) ! 0) = READY \<and>
   state (processes (contextSwitch (Some 0) (Some 1) switch_example) ! 1) = RUNNING \<and>
   startTime (processes (contextSwitch (Some 0) (Some 1) switch_example) ! 1) = 12"
proof -
  have h1: "\<forall>f. Some 0 = Some f \<longrightarrow> f < length (processes switch_example)"
    and h2: "\<forall>t. Some 1 = Some t \<longrightarrow> t < length (processes switch_example)"
    by (simp_all add: switch_example_def)
  show ?thesis
    using contextSwitch_effect [OF h1 h2]
    by (simp add: switch_example_def Process_init_def)
qed

section \<open>Fuel\<close>

text \<open>A run that ends within \<open>n\<close> passes ends the same way with more fuel.\<close>

lemma rr_loop_mono: "rr_loop n s = Some r \<Longrightarrow> rr_loop (n + k) s = Some r"
  by (induction n arbitrary: s) (auto split: loop_result.splits)

lemma prio_loop_mono: "prio_loop n st = Some r \<Longrightarrow> prio_loop (n + k) st = Some r"
  by (induction n arbitrary: st) (auto split: loop_result.splits sum.splits)

lemma mlq_loop_mono: "mlq_loop n s = Some r \<Longrightarrow> mlq_loop (n + k) s = Some r"
  by (induction n arbitrary: s) (auto split: loop_result.splits)

lemma mlfq_loop_mono: "mlfq_loop n s = Some r \<Longrightarrow> mlfq_loop (n + k) s = Some r"
  by (induction n arbitrary: s) (auto split: loop_result.splits sum.splits)

lemma rr_loop_after: "rr_after k s = Some s' \<Longrightarrow> rr_loop (k + m) s = rr_loop m s'"
  by (induction k arbitrary: s) (auto split: loop_result.splits)

lemma rr_loop_fixed: "rr_iteration s = Continue s \<Longrightarrow> rr_loop n s = None"
  by (induction n) simp_all

lemma rr_loop_never_returns:
  assumes "rr_after k s = Some s'" and "rr_iteration s' = Continue s'"
  shows "rr_loop n s = None"
proof (rule ccontr)
  assume "rr_loop n s \<noteq> None"
  then obtain r where "rr_loop n s = Some r" by auto
  then have "rr_loop (n + k) s = Some r" by (rule rr_loop_mono)
  moreover have "rr_loop (k + n) s = None"
    using assms by (simp add: rr_loop_after rr_loop_fixed)
  ultimately show False by (simp add: add.commute)
qed

section \<open>Scenarios and termination\<close>

text \<open>
  C1. Round Robin with quantum 2 on \<open>P1(0,4)\<close>, \<open>P2(0,4)\<close> should give the trace
  \<open>P1 P1 P2 P2 P1 P1 P2 P2\<close> with both completions at 8. The code returns after one pass
  through the loop with an empty trace: both processes are admitted, but neither is queued,
  because \<open>lastScheduledTime\<close> starts at the arrival time and the enqueue test asks for
  \<open>lastScheduledTime < currentTime\<close>. They stay \<open>READY\<close> with their whole burst left,
  and with no \<open>TERMINATED\<close> process the average waiting time is reported as 0.
\<close>

theorem rr_two_returns_without_running:
  "map_option (\<lambda>s. (ganttChart_RR s, map state (processes s),
                     map completionTime (processes s), map remainingTime (processes s),
                     waitingTotals s))
     (rr_schedule (Suc n) rr_two) =
   Some ([], [READY, READY], [-1, -1], [4, 4], (0, 0))"
proof -
  have "map_option (\<lambda>s. (ganttChart_RR s, map state (processes s),
                     map completionTime (processes s), map remainingTime (processes s),
                     waitingTotals s))
          (rr_schedule 1 rr_two) = Some ([], [READY, READY], [-1, -1], [4, 4], (0, 0))"
    by code_simp
  then obtain s where s: "rr_schedule 1 rr_two = Some s"
    and v: "(ganttChart_RR s, map state (processes s),
             map completionTime (processes s), map remainingTime (processes s),
             waitingTotals s)
            = ([], [READY, READY], [-1, -1], [4, 4], (0, 0))"
    by auto
  from s have "rr_schedule (1 + n) rr_two = Some s"
    unfolding rr_schedule_def by (rule rr_loop_mono)
  with v show ?thesis by simp
qed

text \<open>
  C2. Every process should be \<open>TERMINATED\<close> when \<open>schedule()\<close> returns. On the workloads of
  the repository's own tests it is not so: Round Robin and the multilevel queue return at
  once when all processes arrive together (and so does the feedback queue), and preemptive
  Priority returns while \<open>P1\<close> is still \<open>RUNNING\<close> with 6 units left, because a
  \<open>RUNNING\<close> process is not in the ready queue that the loop rebuilds.
\<close>

theorem schedule_returns_with_unfinished_processes:
  "map_option (\<lambda>s. (ganttChart_RR s, map state (processes s))) (rr_schedule 1 rr_same_arrival)
     = Some ([], [READY, READY, READY]) \<and>
   map_option (\<lambda>s. (ganttChart_MLQ s, map state (processes s))) (mlq_schedule 1 mlq_same_arrival)
     = Some ([], [READY, READY, READY]) \<and>
   map_option (map_sum id (\<lambda>s. (ganttChart_P s, map state (processes s),
                                  map remainingTime (processes s))))
       (prio_schedule 9 prio_preemptive_three)
     = Some (Inr ([''P1'', ''P2'', ''P2'', ''P2'', ''P2'', ''P3'', ''P3'', ''P1''],
                  [RUNNING, TERMINATED, TERMINATED], [6, 0, 0])) \<and>
   map_option (map_sum id (\<lambda>s. (ganttChart_MLFQ s, map state (processes s))))
       (mlfq_schedule 1 mlfq_same_arrival)
     = Some (Inr ([], [READY, READY]))"
  by code_simp

text \<open>
  C3. Non-preemptive Priority on \<open>P1(0,5,3)\<close>, \<open>P2(1,3,1)\<close>, \<open>P3(2,2,2)\<close>: the code runs
  \<open>P1\<close> over 0-5, \<open>P2\<close> over 5-8 and \<open>P3\<close> over 8-10, as claimed, but the waiting times it
  records are 0, 0 and 3, not 0, 4 and 6: \<open>P2\<close> and \<open>P3\<close> arrive during \<open>P1\<close>'s burst and
  are only admitted, and only start to accrue waiting time, when the burst is over.
\<close>

theorem prio_three_waiting_times:
  "map_option (map_sum id (\<lambda>s. (ganttChart_P s, map startTime (processes s),
                                  map completionTime (processes s),
                                  map waitingTime (processes s),
                                  map (\<lambda>p. turnaroundTime p - burstTime p) (processes s))))
     (prio_schedule (3 + n) prio_three) =
   Some (Inr ([''P1'', ''P1'', ''P1'', ''P1'', ''P1'', ''P2'', ''P2'', ''P2'', ''P3'', ''P3''],
              [0, 5, 8], [5, 8, 10], [0, 0, 3], [0, 4, 6]))"
proof -
  have "map_option (map_sum id (\<lambda>s. (ganttChart_P s, map startTime (processes s),
                                  map completionTime (processes s),
                                  map waitingTime (processes s),
                                  map (\<lambda>p. turnaroundTime p - burstTime p) (processes s))))
     (prio_schedule 3 prio_three) =
   Some (Inr ([''P1'', ''P1'', ''P1'', ''P1'', ''P1'', ''P2'', ''P2'', ''P2'', ''P3'', ''P3''],
              [0, 5, 8], [5, 8, 10], [0, 0, 3], [0, 4, 6]))"
    by code_simp
  then obtain r where r: "prio_schedule 3 prio_three = Some r"
    and v: "map_sum id (\<lambda>s. (ganttChart_P s, map startTime (processes s),
                                  map completionTime (processes s),
                                  map waitingTime (processes s),
                                  map (\<lambda>p. turnaroundTime p - burstTime p) (processes s))) r =
      Inr ([''P1'', ''P1'', ''P1'', ''P1'', ''P1'', ''P2'', ''P2'', ''P2'', ''P3'', ''P3''],
              [0, 5, 8], [5, 8, 10], [0, 0, 3], [0, 4, 6])"
    by auto
  from r have "prio_schedule (3 + n) prio_three = Some r"
    unfolding prio_schedule_def by (rule prio_loop_mono)
  with v show ?thesis by simp
qed

section \<open>Aging in the Priority scheduler\<close>

lemma loop_state_simps [simp]: "loop_state (Continue s) = s" "loop_state (Break s) = s"
  by (simp_all add: loop_state_def)

lemma nth_of_map: "map F ps' = map F ps \<Longrightarrow> i < length ps \<Longrightarrow> F (ps' ! i) = F (ps ! i)"
  by (metis length_map nth_map)

lemma map_field_at: "(\<And>p. F (g p) = F p) \<Longrightarrow> map F (at i g ps) = map F ps"
proof (cases "i < length ps")
  case True
  assume "\<And>p. F (g p) = F p"
  with True show ?thesis
    by (intro nth_equalityI) (auto simp: at_def nth_list_update)
next
  case False
  then show ?thesis by (simp add: at_def list_update_beyond)
qed

lemma priority_execute [simp]: "priority (snd (execute q p)) = priority p"
  by (simp add: execute_def Let_def)

lemma priority_terminate [simp]: "priority (terminate t p) = priority p"
  by (simp add: terminate_def calculateMetrics_def)

lemma priority_addWaitingToOthers [simp]:
  "map priority (addWaitingToOthers i t ps) = map priority ps"
  by (auto simp: addWaitingToOthers_def addWaitingTime_def intro!: nth_equalityI)

lemma priority_admit [simp]:
  "map priority (processes (snd (admitArrivingProcesses s))) = map priority (processes s)"
  by (simp add: admitArrivingProcesses_def Let_def comp_def cong: if_cong)

lemma priority_contextSwitch [simp]:
  "map priority (processes (contextSwitch from to s)) = map priority (processes s)"
  by (simp add: cs_procs Let_def map_field_at split: option.split)

lemma prio_end_snd [simp]: "snd (loop_state (prio_end_of_body st)) = snd st"
  by (cases st) (simp add: prio_end_of_body_def)

lemma prio_queue_empty_priorities:
  "map priority (processes (snd (loop_state (prio_queue_empty r s)))) = map priority (processes s)"
  by (simp add: prio_queue_empty_def Let_def map_field_at split: option.split)

lemma prio_nonpreemptive_priorities:
  "map priority (processes (snd (loop_state (prio_nonpreemptive r nx s)))) =
     map priority (processes s)"
  by (simp add: prio_nonpreemptive_def Let_def map_field_at)

lemma prio_preemptive_priorities:
  "map priority (processes (snd (loop_state (prio_preemptive r nx s)))) =
     map priority (processes s)"
  by (simp add: prio_preemptive_def Let_def map_field_at split: option.split prod.split)

text \<open>A pass through the loop changes priorities only in the aging step.\<close>

lemma prio_iteration_priorities:
  assumes "prio_iteration (r, s) = Inr res"
  shows "\<exists>s2. prio_aging_check (snd (admitArrivingProcesses s)) = Inr s2 \<and>
              map priority (processes (snd (loop_state res))) = map priority (processes s2)"
proof -
  let ?s1 = "snd (admitArrivingProcesses s)"
  from assms obtain s2 where s2: "prio_aging_check ?s1 = Inr s2"
    by (cases "prio_aging_check ?s1") (simp_all add: prio_iteration_def Let_def)
  let ?s3 = "s2\<lparr>readyQueue_P :=
                  filter (\<lambda>i. state (processes s2 ! i) = READY) [0..<length (processes s2)]\<rparr>"
  let ?nx = "pq_top (processes ?s3) (readyQueue_P ?s3)"
  have "res = prio_queue_empty r ?s3 \<or> res = prio_preemptive r ?nx ?s3
          \<or> res = prio_nonpreemptive r ?nx ?s3"
    using assms s2 by (simp add: prio_iteration_def Let_def split: if_splits)
  then have "map priority (processes (snd (loop_state res))) = map priority (processes ?s3)"
    using prio_queue_empty_priorities [of r ?s3] prio_preemptive_priorities [of r ?nx ?s3]
      prio_nonpreemptive_priorities [of r ?nx ?s3]
    by auto
  with s2 show ?thesis by simp
qed

lemma aging_length [simp]: "length (processes (prio_applyAging s)) = length (processes s)"
  by (simp add: prio_applyAging_def)

lemma aging_pointwise:
  "i < length (processes s) \<Longrightarrow>
   priority (processes (prio_applyAging s) ! i) = priority (processes s ! i) \<or>
   0 < priority (processes s ! i) \<and>
   priority (processes (prio_applyAging s) ! i) = priority (processes s ! i) - 1"
  by (simp add: prio_applyAging_def Let_def)

lemma aging_check_pointwise:
  assumes "prio_aging_check s = Inr s'"
  shows "length (processes s') = length (processes s) \<and>
         (i < length (processes s) \<longrightarrow>
            priority (processes s' ! i) = priority (processes s ! i) \<or>
            0 < priority (processes s ! i) \<and>
            priority (processes s' ! i) = priority (processes s ! i) - 1)"
proof -
  from assms have "s' = prio_applyAging s \<or> s' = s"
    by (auto simp: prio_aging_check_def split: sum.splits if_splits)
  then show ?thesis
    using aging_pointwise [of i s] by auto
qed

lemma prio_iteration_pointwise:
  assumes "prio_iteration (r, s) = Inr res"
  shows "length (processes (snd (loop_state res))) = length (processes s) \<and>
         (i < length (processes s) \<longrightarrow>
            priority (processes (snd (loop_state res)) ! i) = priority (processes s ! i) \<or>
            0 < priority (processes s ! i) \<and>
            priority (processes (snd (loop_state res)) ! i) = priority (processes s ! i) - 1)"
proof -
  let ?s1 = "snd (admitArrivingProcesses s)"
  from prio_iteration_priorities [OF assms] obtain s2
    where s2: "prio_aging_check ?s1 = Inr s2"
      and eq: "map priority (processes (snd (loop_state res))) = map priority (processes s2)"
    by blast
  have adm: "map priority (processes ?s1) = map priority (processes s)"
    by (rule priority_admit)
  have len1: "length (processes ?s1) = length (processes s)"
    using adm by (rule map_eq_imp_length_eq)
  have len2: "length (processes (snd (loop_state res))) = length (processes s2)"
    using eq by (rule map_eq_imp_length_eq)
  from aging_check_pointwise [OF s2, of i]
  have len3: "length (processes s2) = length (processes ?s1)"
    and pw: "i < length (processes ?s1) \<longrightarrow>
            priority (processes s2 ! i) = priority (processes ?s1 ! i) \<or>
            0 < priority (processes ?s1 ! i) \<and>
            priority (processes s2 ! i) = priority (processes ?s1 ! i) - 1"
    by blast+
  show ?thesis
  proof (intro conjI impI)
    show "length (processes (snd (loop_state res))) = length (processes s)"
      using len1 len2 len3 by simp
  next
    assume i: "i < length (processes s)"
    have a: "priority (processes ?s1 ! i) = priority (processes s ! i)"
      using nth_of_map [OF adm i] .
    have "i < length (processes s2)" using i len1 len3 by simp
    from nth_of_map [OF eq this]
    have b: "priority (processes (snd (loop_state res)) ! i) = priority (processes s2 ! i)" .
    from pw i len1 a b
    show "priority (processes (snd (loop_state res)) ! i) = priority (processes s ! i) \<or>
            0 < priority (processes s ! i) \<and>
            priority (processes (snd (loop_state res)) ! i) = priority (processes s ! i) - 1"
      by simp
  qed
qed

lemma priorities_aged_refl: "priorities_aged ps ps"
  by (simp add: priorities_aged_def)

lemma priorities_aged_trans: "priorities_aged ps qs \<Longrightarrow> priorities_aged qs rs \<Longrightarrow> priorities_aged ps rs"
  unfolding priorities_aged_def
  apply (intro conjI allI impI)
     apply simp
    apply (metis order_trans)
   apply metis
  apply (metis)
  done

lemma prio_iteration_priorities_aged:
  assumes "prio_iteration (r, s) = Inr res"
  shows "priorities_aged (processes s) (processes (snd (loop_state res)))"
  unfolding priorities_aged_def
proof (intro conjI allI impI)
  show "length (processes (snd (loop_state res))) = length (processes s)"
    using prio_iteration_pointwise [OF assms] by blast
next
  fix i assume "i < length (processes s)"
  with prio_iteration_pointwise [OF assms, of i]
  have d: "priority (processes (snd (loop_state res)) ! i) = priority (processes s ! i) \<or>
            0 < priority (processes s ! i) \<and>
            priority (processes (snd (loop_state res)) ! i) = priority (processes s ! i) - 1"
    by blast
  from d show "priority (processes (snd (loop_state res)) ! i) \<le> priority (processes s ! i)" by auto
  { assume "0 \<le> priority (processes s ! i)"
    with d show "0 \<le> priority (processes (snd (loop_state res)) ! i)" by auto }
  { assume "priority (processes s ! i) \<le> 0"
    with d show "priority (processes (snd (loop_state res)) ! i) = priority (processes s ! i)" by auto }
qed

lemma prio_loop_priorities_aged:
  "prio_loop n (r, s) = Some (Inr s') \<Longrightarrow> priorities_aged (processes s) (processes s')"
proof (induction n arbitrary: r s)
  case 0
  then show ?case by simp
next
  case (Suc n)
  show ?case
  proof (cases "prio_iteration (r, s)")
    case (Inl e)
    with Suc.prems show ?thesis by simp
  next
    case (Inr res)
    note it = prio_iteration_priorities_aged [OF Inr]
    show ?thesis
    proof (cases res)
      case (Continue st)
      obtain r1 s1 where st: "st = (r1, s1)" by (cases st)
      from Suc.prems Inr Continue st have "prio_loop n (r1, s1) = Some (Inr s')" by simp
      from Suc.IH [OF this] it Continue st show ?thesis
        by (auto intro: priorities_aged_trans)
    next
      case (Break st)
      obtain r1 s1 where st: "st = (r1, s1)" by (cases st)
      from Suc.prems Inr Break st have "s' = s1" by simp
      with it Break st show ?thesis by simp
    qed
  qed
qed


text \<open>
  C6, as stated: whenever the cadence test succeeds, every \<open>READY\<close> process with a positive
  priority value is decremented. In the first pass of the run of \<open>test_priority_aging\<close>'s
  workload the test succeeds at time 0 with \<open>P1\<close> \<open>READY\<close> at priority 5, and \<open>P1\<close> keeps
  priority 5: \<open>applyAging\<close> also asks for \<open>currentTime - lastScheduledTime >= agingInterval\<close>.
\<close>

theorem aging_skips_recent_arrival_counterexample:
  "agingEnabled_P prio_aging_pass1 \<and>
   cpp_rem (currentTime prio_aging_pass1) (agingInterval prio_aging_pass1) = Inr 0 \<and>
   state (processes prio_aging_pass1 ! 0) = READY \<and>
   priority (processes prio_aging_pass1 ! 0) = 5 \<and>
   map_sum id (\<lambda>s. priority (processes s ! 0)) (prio_aging_check prio_aging_pass1) = Inr 5"
  by code_simp

text \<open>
  C6, amended: with aging enabled, whenever the cadence test succeeds, exactly the processes
  that are \<open>READY\<close>, have a positive priority value and have
  \<open>currentTime - lastScheduledTime \<ge> agingInterval\<close> get their priority value decremented
  by one, and nothing else changes. No process's priority value is ever taken below 0: in a
  pass through the loop the priority value of each process either stays as it is or is
  positive and drops by one, and when \<open>schedule()\<close> returns the priority value of each
  process is at most what it was before the run, at least 0 if it was at least 0, and
  unchanged if it was at most 0.
\<close>

theorem aging_step_rule:
  "(agingEnabled_P s \<and> cpp_rem (currentTime s) (agingInterval s) = Inr 0 \<longrightarrow>
      prio_aging_check s =
        Inr (s\<lparr>processes :=
                 map (\<lambda>p. if state p = READY \<and> agingInterval s \<le> currentTime s - lastScheduledTime p
                               \<and> 0 < priority p
                           then p\<lparr>priority := priority p - 1\<rparr> else p)
                     (processes s)\<rparr>)) \<and>
   (prio_iteration (r, s) = Inr res \<longrightarrow>
      length (processes (snd (loop_state res))) = length (processes s) \<and>
      (\<forall>i<length (processes s).
         (priority (processes (snd (loop_state res)) ! i) = priority (processes s ! i) \<or>
          0 < priority (processes s ! i) \<and>
          priority (processes (snd (loop_state res)) ! i) = priority (processes s ! i) - 1) \<and>
         (0 \<le> priority (processes s ! i) \<longrightarrow>
            0 \<le> priority (processes (snd (loop_state res)) ! i)))) \<and>
   (prio_schedule n s = Some (Inr s') \<longrightarrow>
      length (processes s') = length (processes s) \<and>
      (\<forall>i<length (processes s).
         priority (processes s' ! i) \<le> priority (processes s ! i) \<and>
         (0 \<le> priority (processes s ! i) \<longrightarrow> 0 \<le> priority (processes s' ! i)) \<and>
         (priority (processes s ! i) \<le> 0 \<longrightarrow>
            priority (processes s' ! i) = priority (processes s ! i))))"
proof (intro conjI impI)
  assume "agingEnabled_P s \<and> cpp_rem (currentTime s) (agingInterval s) = Inr 0"
  then show "prio_aging_check s =
        Inr (s\<lparr>processes :=
                 map (\<lambda>p. if state p = READY \<and> agingInterval s \<le> currentTime s - lastScheduledTime p
                               \<and> 0 < priority p
                           then p\<lparr>priority := priority p - 1\<rparr> else p)
                     (processes s)\<rparr>)"
    by (simp add: prio_aging_check_def prio_applyAging_def Let_def cong: if_cong)
next
  assume "prio_iteration (r, s) = Inr res"
  then show "length (processes (snd (loop_state res))) = length (processes s)"
    using prio_iteration_pointwise by blast
next
  assume it: "prio_iteration (r, s) = Inr res"
  show "\<forall>i<length (processes s).
         (priority (processes (snd (loop_state res)) ! i) = priority (processes s ! i) \<or>
          0 < priority (processes s ! i) \<and>
          priority (processes (snd (loop_state res)) ! i) = priority (processes s ! i) - 1) \<and>
         (0 \<le> priority (processes s ! i) \<longrightarrow>
            0 \<le> priority (processes (snd (loop_state res)) ! i))"
  proof (intro allI impI)
    fix i assume "i < length (processes s)"
    with prio_iteration_pointwise [OF it, of i]
    show "(priority (processes (snd (loop_state res)) ! i) = priority (processes s ! i) \<or>
          0 < priority (processes s ! i) \<and>
          priority (processes (snd (loop_state res)) ! i) = priority (processes s ! i) - 1) \<and>
         (0 \<le> priority (processes s ! i) \<longrightarrow>
            0 \<le> priority (processes (snd (loop_state res)) ! i))"
      by auto
  qed
next
  assume "prio_schedule n s = Some (Inr s')"
  then have "priorities_aged (processes s) (processes s')"
    using prio_loop_priorities_aged [of n None "s\<lparr>currentTime := earliestArrival (processes s),
                                       ganttChart_P := []\<rparr>" s']
    by (simp add: prio_schedule_def)
  then show "length (processes s') = length (processes s)"
    by (simp add: priorities_aged_def)
next
  assume "prio_schedule n s = Some (Inr s')"
  then have "priorities_aged (processes s) (processes s')"
    using prio_loop_priorities_aged [of n None "s\<lparr>currentTime := earliestArrival (processes s),
                                       ganttChart_P := []\<rparr>" s']
    by (simp add: prio_schedule_def)
  then show "\<forall>i<length (processes s).
         priority (processes s' ! i) \<le> priority (processes s ! i) \<and>
         (0 \<le> priority (processes s ! i) \<longrightarrow> 0 \<le> priority (processes s' ! i)) \<and>
         (priority (processes s ! i) \<le> 0 \<longrightarrow>
            priority (processes s' ! i) = priority (processes s ! i))"
    by (simp add: priorities_aged_def)
qed

theorem aging_step_rule_witness:
  "agingEnabled_P prio_aging_pass3 \<and>
   cpp_rem (currentTime prio_aging_pass3) (agingInterval prio_aging_pass3) = Inr 0 \<and>
   map state (processes prio_aging_pass3) = [TERMINATED, TERMINATED, READY] \<and>
   map priority (processes prio_aging_pass3) = [5, 1, 1] \<and>
   map_sum id (\<lambda>s. map priority (processes s)) (prio_aging_check prio_aging_pass3) = Inr [5, 1, 0] \<and>
   \<not> isl (prio_iteration (the (prio_after 2 prio_aging_start))) \<and>
   (2::nat) < length (processes (snd (the (prio_after 2 prio_aging_start)))) \<and>
   priority (processes (snd (the (prio_after 2 prio_aging_start))) ! 2) = 1 \<and>
   priority (processes (snd (loop_state (projr (prio_iteration (the (prio_after 2 prio_aging_start))))))
               ! 2) = 0 \<and>
   prio_schedule 3 prio_aging \<noteq> None \<and> \<not> isl (the (prio_schedule 3 prio_aging)) \<and>
   map priority (processes prio_aging) = [5, 1, 1] \<and>
   priority (processes (projr (the (prio_schedule 3 prio_aging))) ! 2) = 0 \<and>
   map priority (processes (projr (the (prio_schedule 3 prio_aging)))) = [5, 1, 0]"
proof -
  let ?st = "the (prio_after 2 prio_aging_start)"
  let ?res = "projr (prio_iteration ?st)"
  let ?fin = "projr (the (prio_schedule 3 prio_aging))"
  have a: "agingEnabled_P prio_aging_pass3 \<and>
           cpp_rem (currentTime prio_aging_pass3) (agingInterval prio_aging_pass3) = Inr 0"
    by code_simp
  have b: "prio_iteration (fst ?st, snd ?st) = Inr ?res"
    by code_simp
  have b': "\<not> isl (prio_iteration ?st) \<and> (2::nat) < length (processes (snd ?st)) \<and>
            priority (processes (snd ?st) ! 2) = 1 \<and>
            priority (processes (snd (loop_state ?res)) ! 2) \<noteq> 1"
    by code_simp
  have c: "map state (processes prio_aging_pass3) = [TERMINATED, TERMINATED, READY] \<and>
           map priority (processes prio_aging_pass3) = [5, 1, 1] \<and>
           map priority (map (\<lambda>p. if state p = READY \<and>
                 agingInterval prio_aging_pass3 \<le> currentTime prio_aging_pass3 - lastScheduledTime p
                               \<and> 0 < priority p
                           then p\<lparr>priority := priority p - 1\<rparr> else p)
                     (processes prio_aging_pass3)) = [5, 1, 0]"
    by code_simp
  have f: "prio_schedule 3 prio_aging = Some (Inr ?fin)"
    by code_simp
  have f': "prio_schedule 3 prio_aging \<noteq> None \<and> \<not> isl (the (prio_schedule 3 prio_aging)) \<and>
            map priority (processes prio_aging) = [5, 1, 1]"
    by code_simp
  have f'': "(2::nat) < length (processes prio_aging) \<and>
             priority (processes prio_aging ! 2) = 1 \<and> priority (processes ?fin ! 2) \<noteq> 1"
    by code_simp
  from a aging_step_rule [where s = prio_aging_pass3]
  have "prio_aging_check prio_aging_pass3 =
        Inr (prio_aging_pass3\<lparr>processes :=
                 map (\<lambda>p. if state p = READY \<and>
                 agingInterval prio_aging_pass3 \<le> currentTime prio_aging_pass3 - lastScheduledTime p
                               \<and> 0 < priority p
                           then p\<lparr>priority := priority p - 1\<rparr> else p)
                     (processes prio_aging_pass3)\<rparr>)"
    by blast
  with c have d: "map_sum id (\<lambda>s. map priority (processes s)) (prio_aging_check prio_aging_pass3)
                    = Inr [5, 1, 0]"
    by simp
  from b aging_step_rule [where s = "snd ?st" and r = "fst ?st" and res = ?res]
  have "\<forall>i<length (processes (snd ?st)).
         (priority (processes (snd (loop_state ?res)) ! i) = priority (processes (snd ?st) ! i) \<or>
          0 < priority (processes (snd ?st) ! i) \<and>
          priority (processes (snd (loop_state ?res)) ! i) = priority (processes (snd ?st) ! i) - 1) \<and>
         (0 \<le> priority (processes (snd ?st) ! i) \<longrightarrow>
            0 \<le> priority (processes (snd (loop_state ?res)) ! i))"
    by blast
  with b' have e: "priority (processes (snd (loop_state ?res)) ! 2) = 0"
    by force
  from f aging_step_rule [where s = prio_aging and n = 3 and s' = ?fin]
  have g: "length (processes ?fin) = length (processes prio_aging) \<and>
      (\<forall>i<length (processes prio_aging).
         priority (processes ?fin ! i) \<le> priority (processes prio_aging ! i) \<and>
         (0 \<le> priority (processes prio_aging ! i) \<longrightarrow> 0 \<le> priority (processes ?fin ! i)) \<and>
         (priority (processes prio_aging ! i) \<le> 0 \<longrightarrow>
            priority (processes ?fin ! i) = priority (processes prio_aging ! i)))"
    by blast
  then have "(2::nat) < length (processes prio_aging) \<longrightarrow>
         priority (processes ?fin ! 2) \<le> priority (processes prio_aging ! 2) \<and>
         (0 \<le> priority (processes prio_aging ! 2) \<longrightarrow> 0 \<le> priority (processes ?fin ! 2))"
    by blast
  with f'' have h: "priority (processes ?fin ! 2) = 0"
    by simp
  have k: "map priority (processes ?fin) = [5, 1, 0]"
    by code_simp
  from a b' c d e f' h k show ?thesis by blast
qed

section \<open>Demotion in the feedback queue\<close>

lemma mlfq_enqueue_fields:
  "mlfq_enqueue skip s = Inr s' \<Longrightarrow>
   processQueueLevel s' = processQueueLevel s \<and> timeInQueue s' = timeInQueue s \<and>
   numQueues s' = numQueues s \<and> currentTime s' = currentTime s"
  by (auto simp: mlfq_enqueue_def split: sum.splits prod.splits)

lemma admit_processes:
  "snd (admitArrivingProcesses s) =
     s\<lparr>processes := map (\<lambda>p. if state p = NEW \<and> arrivalTime p \<le> currentTime s
                               then p\<lparr>state := READY\<rparr> else p) (processes s)\<rparr>"
  by (simp add: admitArrivingProcesses_def Let_def)

lemma pid_admit [simp]:
  "map pid (processes (snd (admitArrivingProcesses s))) = map pid (processes s)"
  by (simp add: admitArrivingProcesses_def Let_def comp_def cong: if_cong)

lemma pid_contextSwitch [simp]:
  "map pid (processes (contextSwitch from to s)) = map pid (processes s)"
  by (simp add: cs_procs Let_def map_field_at split: option.split)

lemma remaining_contextSwitch [simp]:
  "map remainingTime (processes (contextSwitch from to s)) = map remainingTime (processes s)"
  by (simp add: cs_procs Let_def map_field_at split: option.split)

lemma addWaitingToOthers_self:
  "i < length ps \<Longrightarrow> addWaitingToOthers i t ps ! i = ps ! i"
  by (simp add: addWaitingToOthers_def)

lemma addWaitingToOthers_length [simp]: "length (addWaitingToOthers i t ps) = length ps"
  by (simp add: addWaitingToOthers_def)


lemma mlfq_slice_facts:
  assumes "mlfq_slice q s = (i, quantum, e, s5)"
  shows "i = hd (queues_MLFQ s ! q) \<and> quantum = timeQuantums s ! q \<and>
         processQueueLevel s5 = processQueueLevel s \<and> timeInQueue s5 = timeInQueue s \<and>
         numQueues s5 = numQueues s \<and> length (processes s5) = length (processes s) \<and>
         (i < length (processes s) \<longrightarrow>
            e = min quantum (remainingTime (processes s ! i)) \<and>
            pid (processes s5 ! i) = pid (processes s ! i) \<and>
            remainingTime (processes s5 ! i) = remainingTime (processes s ! i) - e)"
proof -
  define j where "j = hd (queues_MLFQ s ! q)"
  define s1 where "s1 = s\<lparr>queues_MLFQ := (queues_MLFQ s)[q := tl (queues_MLFQ s ! q)]\<rparr>"
  define s2 where "s2 = contextSwitch (currentProcess s1) (Some j) s1"
  define qu where "qu = timeQuantums s2 ! q"
  define ex where "ex = fst (execute qu (processes s2 ! j))"
  define p' where "p' = snd (execute qu (processes s2 ! j))"
  define s3 where "s3 = s2\<lparr>processes := (processes s2)[j := p'],
      ganttChart_MLFQ := pushTimes ex (name p') (ganttChart_MLFQ s2)\<rparr>"
  define s4 where "s4 = s3\<lparr>processes := addWaitingToOthers j ex (processes s3)\<rparr>"
  define t5 where "t5 = s4\<lparr>currentTime := currentTime s4 + ex\<rparr>"
  have "mlfq_slice q s = (j, qu, ex, t5)"
    unfolding mlfq_slice_def Let_def j_def [symmetric]
    apply (simp only: s1_def [symmetric])
    apply (simp only: s2_def [symmetric])
    apply (simp only: qu_def [symmetric] split_def ex_def [symmetric] p'_def [symmetric])
    apply (simp only: s3_def [symmetric])
    apply (simp only: s4_def [symmetric])
    apply (simp only: t5_def [symmetric])
    done
  with assms have eq: "i = j" "quantum = qu" "e = ex" "s5 = t5"
    by simp_all
  have q2: "timeQuantums s2 = timeQuantums s" "processQueueLevel s2 = processQueueLevel s"
    "timeInQueue s2 = timeInQueue s" "numQueues s2 = numQueues s"
    by (simp_all add: s2_def s1_def contextSwitch_def Let_def split: option.split)
  have len2: "length (processes s2) = length (processes s)"
    by (simp add: s2_def s1_def cs_length)
  have m2: "map pid (processes s2) = map pid (processes s)"
    "map remainingTime (processes s2) = map remainingTime (processes s)"
    by (simp_all add: s2_def s1_def)
  have f5: "processQueueLevel t5 = processQueueLevel s" "timeInQueue t5 = timeInQueue s"
    "numQueues t5 = numQueues s" "length (processes t5) = length (processes s)"
    by (simp_all add: t5_def s4_def s3_def q2 len2)
  have i5: "e = min quantum (remainingTime (processes s ! i)) \<and>
            pid (processes s5 ! i) = pid (processes s ! i) \<and>
            remainingTime (processes s5 ! i) = remainingTime (processes s ! i) - e"
    if "i < length (processes s)"
  proof -
    from that have jl: "j < length (processes s)"
      by (simp add: eq)
    then have "processes t5 ! j = p'"
      by (simp add: t5_def s4_def s3_def addWaitingToOthers_self len2)
    moreover have "pid (processes s2 ! j) = pid (processes s ! j)"
      "remainingTime (processes s2 ! j) = remainingTime (processes s ! j)"
      using jl m2 nth_of_map by blast+
    ultimately show ?thesis
      by (simp add: eq p'_def ex_def execute_def Let_def)
  qed
  show ?thesis
    using f5 i5 by (simp add: eq j_def qu_def q2)
qed

lemma mlfq_dispatch_unfold:
  assumes "mlfq_dispatch q s = Inr res" and "hd (queues_MLFQ s ! q) < length (processes s)"
  shows "\<exists>s5 s6. 
          processQueueLevel s5 = processQueueLevel s \<and> timeInQueue s5 = timeInQueue s \<and>
          numQueues s5 = numQueues s \<and>
          length (processes s5) = length (processes s) \<and>
          (let i = hd (queues_MLFQ s ! q); quantum = timeQuantums s ! q;
               remaining = remainingTime (processes s ! i)
           in pid (processes s5 ! i) = pid (processes s ! i) \<and>
              remainingTime (processes s5 ! i) = remaining - min quantum remaining \<and>
              (if isComplete (processes s5 ! i)
               then Inr (s5\<lparr>processes := at i (terminate (currentTime s5)) (processes s5)\<rparr>)
               else mlfq_requeue i (min quantum remaining) quantum s5) = Inr s6) \<and>
          loop_state res = s6\<lparr>currentProcess := None\<rparr>"
proof -
  obtain i quantum e s5 where sl: "mlfq_slice q s = (i, quantum, e, s5)"
    by (cases "mlfq_slice q s") auto
  note f = mlfq_slice_facts [OF sl]
  from assms(1) obtain s6 where
    s6: "(if isComplete (processes s5 ! i)
          then Inr (s5\<lparr>processes := at i (terminate (currentTime s5)) (processes s5)\<rparr>)
          else mlfq_requeue i e quantum s5) = Inr s6"
    and r: "loop_state res = s6\<lparr>currentProcess := None\<rparr>"
    unfolding mlfq_dispatch_def sl Let_def prod.case
    by (auto split: sum.splits if_splits)
  from f have i: "i = hd (queues_MLFQ s ! q)" and qu: "quantum = timeQuantums s ! q"
    by simp_all
  show ?thesis
    unfolding Let_def i [symmetric] qu [symmetric]
    using f s6 r assms(2) [unfolded i [symmetric]]
    by (intro exI [of _ s5] exI [of _ s6]) (auto split: if_splits)
qed

lemma pid_at_ready: "pid (at i (\<lambda>p. p\<lparr>state := READY\<rparr>) ps ! i) = pid (ps ! i)"
  by (cases "i < length ps") (simp_all add: at_def list_update_beyond)

lemma mlfq_requeue_levels:
  assumes "mlfq_requeue i e quantum s = Inr s'"
  shows "processQueueLevel s' =
           (if e = quantum \<and> processQueueLevel s (pid (processes s ! i)) < numQueues s - 1
            then (processQueueLevel s)
                   (pid (processes s ! i) := processQueueLevel s (pid (processes s ! i)) + 1)
            else processQueueLevel s) \<and>
         timeInQueue s' =
           (if e = quantum \<and> processQueueLevel s (pid (processes s ! i)) < numQueues s - 1
            then (timeInQueue s)(pid (processes s ! i) := 0)
            else timeInQueue s)"
proof -
  define a where "a = s\<lparr>processes := at i (\<lambda>p. p\<lparr>state := READY\<rparr>) (processes s)\<rparr>"
  define b where "b = (if e = quantum then demoteProcess i a else a)"
  define c where "c = snd (admitArrivingProcesses b)"
  from assms obtain d where d: "mlfq_enqueue (Some i) c = Inr d"
    and s': "processQueueLevel s' = processQueueLevel d" "timeInQueue s' = timeInQueue d"
    unfolding mlfq_requeue_def Let_def
    apply (simp only: a_def [symmetric])
    apply (simp only: b_def [symmetric])
    apply (simp only: c_def [symmetric])
    apply (auto split: sum.splits if_splits)
    done
  have "processQueueLevel d = processQueueLevel b" "timeInQueue d = timeInQueue b"
    using mlfq_enqueue_fields [OF d] by (simp_all add: c_def admit_processes)
  moreover have "pid (processes a ! i) = pid (processes s ! i)"
    by (simp add: a_def pid_at_ready)
  ultimately show ?thesis
    using s' by (simp add: b_def demoteProcess_def Let_def a_def)
qed

text \<open>
  C9, amended: when a dispatch returns, with \<open>L\<close> the level recorded for the dispatched
  process and \<open>N\<close> the number of levels: if the process used its whole quantum without
  finishing (quantum below its remaining time), its level becomes \<open>L + 1\<close> and its
  time-in-level counter 0 when \<open>L < N - 1\<close>, and both stay as they are when it is already at
  the last level; so the level is \<open>min (L + 1) (N - 1)\<close> whenever \<open>L \<le> N - 1\<close>. If the
  remaining time is at most the quantum, in particular equal to it, the process is
  \<open>TERMINATED\<close> and no level or counter changes.
\<close>

theorem mlfq_dispatch_demotion:
  assumes "mlfq_dispatch q s = Inr res" and "hd (queues_MLFQ s ! q) < length (processes s)"
  shows "let i = hd (queues_MLFQ s ! q); k = pid (processes s ! i);
             L = processQueueLevel s k; N = numQueues s;
             quantum = timeQuantums s ! q; remaining = remainingTime (processes s ! i)
         in (quantum < remaining \<longrightarrow>
               processQueueLevel (loop_state res) k = (if L < N - 1 then L + 1 else L) \<and>
               timeInQueue (loop_state res) k = (if L < N - 1 then 0 else timeInQueue s k) \<and>
               (L \<le> N - 1 \<longrightarrow> processQueueLevel (loop_state res) k = min (L + 1) (N - 1))) \<and>
            (remaining \<le> quantum \<longrightarrow>
               processQueueLevel (loop_state res) = processQueueLevel s \<and>
               timeInQueue (loop_state res) = timeInQueue s \<and>
               state (processes (loop_state res) ! i) = TERMINATED)"
proof -
  define i where "i = hd (queues_MLFQ s ! q)"
  define quantum where "quantum = timeQuantums s ! q"
  define remaining where "remaining = remainingTime (processes s ! i)"
  from mlfq_dispatch_unfold [OF assms] obtain s5 s6 where
    f: "processQueueLevel s5 = processQueueLevel s" "timeInQueue s5 = timeInQueue s"
       "numQueues s5 = numQueues s" "length (processes s5) = length (processes s)"
    and p: "pid (processes s5 ! i) = pid (processes s ! i)"
       "remainingTime (processes s5 ! i) = remaining - min quantum remaining"
    and s6: "(if isComplete (processes s5 ! i)
               then Inr (s5\<lparr>processes := at i (terminate (currentTime s5)) (processes s5)\<rparr>)
               else mlfq_requeue i (min quantum remaining) quantum s5) = Inr s6"
    and r: "loop_state res = s6\<lparr>currentProcess := None\<rparr>"
    unfolding Let_def i_def [symmetric] quantum_def [symmetric] remaining_def [symmetric]
    by blast
  have il: "i < length (processes s5)"
    using assms(2) f(4) by (simp add: i_def)
  have c: "isComplete (processes s5 ! i) \<longleftrightarrow> remaining \<le> quantum"
    by (auto simp: isComplete_def p(2) min_def)
  have fin: "processQueueLevel (loop_state res) = processQueueLevel s \<and>
             timeInQueue (loop_state res) = timeInQueue s \<and>
             state (processes (loop_state res) ! i) = TERMINATED" if "remaining \<le> quantum"
  proof -
    from that c s6
    have "s6 = s5\<lparr>processes := at i (terminate (currentTime s5)) (processes s5)\<rparr>"
      by simp
    then show ?thesis
      using il by (simp add: r f at_nth terminate_def)
  qed
  have dem: "processQueueLevel (loop_state res) (pid (processes s ! i)) =
               (if processQueueLevel s (pid (processes s ! i)) < numQueues s - 1
                then processQueueLevel s (pid (processes s ! i)) + 1
                else processQueueLevel s (pid (processes s ! i))) \<and>
             timeInQueue (loop_state res) (pid (processes s ! i)) =
               (if processQueueLevel s (pid (processes s ! i)) < numQueues s - 1
                then 0 else timeInQueue s (pid (processes s ! i)))" if "quantum < remaining"
  proof -
    from that c s6 have "mlfq_requeue i quantum quantum s5 = Inr s6"
      by (simp add: min_def)
    from mlfq_requeue_levels [OF this] show ?thesis
      by (simp add: r f p(1))
  qed
  show ?thesis
    unfolding Let_def i_def [symmetric] quantum_def [symmetric] remaining_def [symmetric]
    using fin dem by auto
qed


text \<open>
  C9, as stated: a process that used its whole quantum without finishing has its
  time-in-level counter reset to 0. In the second pass of the one-level run, \<open>P1\<close> (PID 1)
  is dispatched at level \<open>0 = N - 1\<close> with counter 2 (aging counted it twice), runs its
  whole quantum of 2 with 5 units to do, and its counter is still 2 afterwards:
  \<open>demoteProcess\<close> resets the counter only inside \<open>if (currentLevel < numQueues - 1)\<close>.
\<close>

theorem bottom_level_counter_not_reset_counterexample:
  "numQueues mlfq_one_level_pass2 = 1 \<and>
   hd (queues_MLFQ mlfq_one_level_pass2 ! 0) = 0 \<and>
   pid (processes mlfq_one_level_pass2 ! 0) = 1 \<and>
   processQueueLevel mlfq_one_level_pass2 1 = 0 \<and>
   timeInQueue mlfq_one_level_pass2 1 = 2 \<and>
   timeQuantums mlfq_one_level_pass2 ! 0 = 2 \<and>
   remainingTime (processes mlfq_one_level_pass2 ! 0) = 5 \<and>
   \<not> isl (mlfq_dispatch 0 mlfq_one_level_pass2) \<and>
   remainingTime (processes (loop_state (projr (mlfq_dispatch 0 mlfq_one_level_pass2))) ! 0) = 3 \<and>
   processQueueLevel (loop_state (projr (mlfq_dispatch 0 mlfq_one_level_pass2))) 1 = 0 \<and>
   timeInQueue (loop_state (projr (mlfq_dispatch 0 mlfq_one_level_pass2))) 1 = 2"
  by code_simp

theorem mlfq_dispatch_demotion_witness:
  "\<not> isl (mlfq_dispatch 0 mlfq_three_pass2) \<and>
   hd (queues_MLFQ mlfq_three_pass2 ! 0) < length (processes mlfq_three_pass2) \<and>
   timeQuantums mlfq_three_pass2 ! 0 < remainingTime (processes mlfq_three_pass2 ! 0) \<and>
   processQueueLevel mlfq_three_pass2 1 = 0 \<and>
   processQueueLevel (loop_state (projr (mlfq_dispatch 0 mlfq_three_pass2))) 1 = 1 \<and>
   timeInQueue (loop_state (projr (mlfq_dispatch 0 mlfq_three_pass2))) 1 = 0 \<and>
   \<not> isl (mlfq_dispatch 1 mlfq_three_pass7) \<and>
   hd (queues_MLFQ mlfq_three_pass7 ! 1) < length (processes mlfq_three_pass7) \<and>
   remainingTime (processes mlfq_three_pass7 ! 2) = timeQuantums mlfq_three_pass7 ! 1 \<and>
   processQueueLevel (loop_state (projr (mlfq_dispatch 1 mlfq_three_pass7))) 3 = 1 \<and>
   state (processes (loop_state (projr (mlfq_dispatch 1 mlfq_three_pass7))) ! 2) = TERMINATED"
proof -
  have a: "\<not> isl (mlfq_dispatch 0 mlfq_three_pass2)"
    and b: "hd (queues_MLFQ mlfq_three_pass2 ! 0) < length (processes mlfq_three_pass2)"
    and c: "hd (queues_MLFQ mlfq_three_pass2 ! 0) = 0" "pid (processes mlfq_three_pass2 ! 0) = 1"
      "processQueueLevel mlfq_three_pass2 1 = 0" "numQueues mlfq_three_pass2 = 3"
      "timeQuantums mlfq_three_pass2 ! 0 = 2" "remainingTime (processes mlfq_three_pass2 ! 0) = 10"
    by code_simp+
  have a': "\<not> isl (mlfq_dispatch 1 mlfq_three_pass7)"
    and b': "hd (queues_MLFQ mlfq_three_pass7 ! 1) < length (processes mlfq_three_pass7)"
    and c': "hd (queues_MLFQ mlfq_three_pass7 ! 1) = 2" "pid (processes mlfq_three_pass7 ! 2) = 3"
      "processQueueLevel mlfq_three_pass7 3 = 1"
      "timeQuantums mlfq_three_pass7 ! 1 = 4" "remainingTime (processes mlfq_three_pass7 ! 2) = 4"
    by code_simp+
  from a have d: "mlfq_dispatch 0 mlfq_three_pass2 = Inr (projr (mlfq_dispatch 0 mlfq_three_pass2))"
    by simp
  from a' have d': "mlfq_dispatch 1 mlfq_three_pass7 = Inr (projr (mlfq_dispatch 1 mlfq_three_pass7))"
    by simp
  from mlfq_dispatch_demotion [OF d b] c
  have e: "processQueueLevel (loop_state (projr (mlfq_dispatch 0 mlfq_three_pass2))) 1 = 1 \<and>
           timeInQueue (loop_state (projr (mlfq_dispatch 0 mlfq_three_pass2))) 1 = 0"
    by (simp add: Let_def)
  from mlfq_dispatch_demotion [OF d' b'] c'
  have e': "processQueueLevel (loop_state (projr (mlfq_dispatch 1 mlfq_three_pass7))) 3 = 1 \<and>
            state (processes (loop_state (projr (mlfq_dispatch 1 mlfq_three_pass7))) ! 2) = TERMINATED"
    by (simp add: Let_def)
  from a b c a' b' c' e e' show ?thesis by simp
qed

section \<open>Context-switch overhead in the queue-based schedulers\<close>

lemma admit_fields [simp]:
  "currentProcess (snd (admitArrivingProcesses s)) = currentProcess s"
  "totalContextSwitches (snd (admitArrivingProcesses s)) = totalContextSwitches s"
  "currentTime (snd (admitArrivingProcesses s)) = currentTime s"
  by (simp_all add: admitArrivingProcesses_def Let_def)

lemma admit_overhead:
  "snd (admitArrivingProcesses (s\<lparr>contextSwitchOverhead := c\<rparr>)) =
     (snd (admitArrivingProcesses s))\<lparr>contextSwitchOverhead := c\<rparr>"
  by (simp add: admitArrivingProcesses_def Let_def)

lemma updateWaitingTimes_overhead:
  "updateWaitingTimes t (s\<lparr>contextSwitchOverhead := c\<rparr>) =
     (updateWaitingTimes t s)\<lparr>contextSwitchOverhead := c\<rparr>"
  by (simp add: updateWaitingTimes_def)

lemma contextSwitch_null_overhead:
  "contextSwitch None to (s\<lparr>contextSwitchOverhead := c\<rparr>) =
     (contextSwitch None to s)\<lparr>contextSwitchOverhead := c\<rparr>"
  by (simp add: contextSwitch_def Let_def split: option.split)

lemma contextSwitch_null_fields:
  "totalContextSwitches (contextSwitch None to s) = totalContextSwitches s"
  "currentTime (contextSwitch None to s) = currentTime s"
  by (simp_all add: cs_tcs cs_time)

lemma rr_enqueue_overhead:
  "rr_enqueue skip (s\<lparr>contextSwitchOverhead := c\<rparr>) =
     (rr_enqueue skip s)\<lparr>contextSwitchOverhead := c\<rparr>"
  by (simp add: rr_enqueue_def split: prod.split)

lemma rr_enqueue_fields [simp]:
  "currentProcess (rr_enqueue skip s) = currentProcess s"
  "totalContextSwitches (rr_enqueue skip s) = totalContextSwitches s"
  "currentTime (rr_enqueue skip s) = currentTime s"
  by (simp_all add: rr_enqueue_def split: prod.split)

lemma contextSwitch_null:
  "contextSwitch None to s =
     (case to of
        None \<Rightarrow> s\<lparr>currentProcess := None\<rparr>
      | Some t \<Rightarrow>
          s\<lparr>processes :=
              (let ps2 = at t (\<lambda>p. p\<lparr>state := RUNNING\<rparr>) (processes s)
               in if firstSchedule (ps2 ! t)
                  then at t (\<lambda>p. p\<lparr>startTime := currentTime s, firstSchedule := False\<rparr>) ps2
                  else ps2),
            currentProcess := Some t\<rparr>)"
  by (simp add: contextSwitch_def Let_def split: option.split)

lemma rr_dispatch_fields:
  assumes "currentProcess s = None"
  shows "currentProcess (loop_state (rr_dispatch i s)) = None \<and>
         totalContextSwitches (loop_state (rr_dispatch i s)) = totalContextSwitches s"
  using assms
  by (simp add: rr_dispatch_def Let_def contextSwitch_null_fields split: prod.split)

lemma rr_dispatch_overhead:
  assumes "currentProcess s = None"
  shows "rr_dispatch i (s\<lparr>contextSwitchOverhead := c\<rparr>) =
           map_loop_result (\<lambda>s'. s'\<lparr>contextSwitchOverhead := c\<rparr>) (rr_dispatch i s)"
  using assms
  by (simp add: rr_dispatch_def Let_def contextSwitch_null admitArrivingProcesses_def
        rr_enqueue_def split: prod.split)


lemma rr_iteration_fields:
  assumes "currentProcess s = None"
  shows "currentProcess (loop_state (rr_iteration s)) = None \<and>
         totalContextSwitches (loop_state (rr_iteration s)) = totalContextSwitches s"
proof -
  let ?s2 = "rr_enqueue None (snd (admitArrivingProcesses s))"
  have "currentProcess ?s2 = None" "totalContextSwitches ?s2 = totalContextSwitches s"
    using assms by simp_all
  then show ?thesis
    using rr_dispatch_fields [of ?s2]
    by (simp add: rr_iteration_def Let_def updateWaitingTimes_def split: list.split)
qed

lemma rr_iteration_overhead:
  assumes "currentProcess s = None"
  shows "rr_iteration (s\<lparr>contextSwitchOverhead := c\<rparr>) =
           map_loop_result (\<lambda>s'. s'\<lparr>contextSwitchOverhead := c\<rparr>) (rr_iteration s)"
proof -
  let ?s2 = "rr_enqueue None (snd (admitArrivingProcesses s))"
  have "currentProcess ?s2 = None"
    using assms by simp
  then show ?thesis
    using rr_dispatch_overhead [of ?s2]
    by (simp add: rr_iteration_def Let_def admit_overhead rr_enqueue_overhead
          updateWaitingTimes_def split: list.split)
qed

lemma rr_loop_overhead:
  "currentProcess s = None \<Longrightarrow>
   rr_loop n (s\<lparr>contextSwitchOverhead := c\<rparr>) =
     map_option (\<lambda>s'. s'\<lparr>contextSwitchOverhead := c\<rparr>) (rr_loop n s)"
proof (induction n arbitrary: s)
  case 0
  then show ?case by simp
next
  case (Suc n)
  show ?case
  proof (cases "rr_iteration s")
    case (Continue s')
    with rr_iteration_fields [OF Suc.prems] have "currentProcess s' = None"
      by simp
    with Continue Suc.IH [of s'] rr_iteration_overhead [OF Suc.prems, where c = c] show ?thesis
      by simp
  next
    case (Break s')
    with rr_iteration_overhead [OF Suc.prems, where c = c] show ?thesis
      by simp
  qed
qed

lemma rr_loop_fields:
  "currentProcess s = None \<Longrightarrow> rr_loop n s = Some s' \<Longrightarrow>
   currentProcess s' = None \<and> totalContextSwitches s' = totalContextSwitches s"
proof (induction n arbitrary: s)
  case 0
  then show ?case by simp
next
  case (Suc n)
  show ?case
  proof (cases "rr_iteration s")
    case (Continue t)
    with rr_iteration_fields [OF Suc.prems(1)]
    have "currentProcess t = None" "totalContextSwitches t = totalContextSwitches s"
      by simp_all
    with Continue Suc.IH [of t] Suc.prems(2) show ?thesis
      by simp
  next
    case (Break t)
    with rr_iteration_fields [OF Suc.prems(1)] Suc.prems(2) show ?thesis
      by simp
  qed
qed


lemma mlq_enqueue_overhead:
  "mlq_enqueue skip (s\<lparr>contextSwitchOverhead := c\<rparr>) =
     (mlq_enqueue skip s)\<lparr>contextSwitchOverhead := c\<rparr>"
  by (simp add: mlq_enqueue_def split: prod.split)

lemma mlq_enqueue_fields [simp]:
  "currentProcess (mlq_enqueue skip s) = currentProcess s"
  "totalContextSwitches (mlq_enqueue skip s) = totalContextSwitches s"
  by (simp_all add: mlq_enqueue_def split: prod.split)

lemma mlq_config_overhead [simp]:
  "mlq_config (s\<lparr>contextSwitchOverhead := c\<rparr>) k = mlq_config s k"
  by (simp add: mlq_config_def)

lemma scheduleFromQueue_overhead:
  "scheduleFromQueue k i (s\<lparr>contextSwitchOverhead := c\<rparr>) =
     (scheduleFromQueue k i s)\<lparr>contextSwitchOverhead := c\<rparr>"
  by (simp add: scheduleFromQueue_def Let_def mlq_config_def
        split: QueueSchedulingAlgorithm.split prod.split)

lemma scheduleFromQueue_fields [simp]:
  "currentProcess (scheduleFromQueue k i s) = currentProcess s"
  "totalContextSwitches (scheduleFromQueue k i s) = totalContextSwitches s"
  by (simp_all add: scheduleFromQueue_def Let_def
        split: QueueSchedulingAlgorithm.split prod.split)

lemma mlq_dispatch_fields:
  assumes "currentProcess s = None"
  shows "currentProcess (loop_state (mlq_dispatch k s)) = None \<and>
         totalContextSwitches (loop_state (mlq_dispatch k s)) = totalContextSwitches s"
  using assms
  by (simp add: mlq_dispatch_def Let_def contextSwitch_null_fields)

lemma overhead_outward:
  "\<And>s :: 'a Scheduler_scheme. s\<lparr>contextSwitchOverhead := c, processes := ps\<rparr> = s\<lparr>processes := ps, contextSwitchOverhead := c\<rparr>"
  "\<And>s :: 'a Scheduler_scheme. s\<lparr>contextSwitchOverhead := c, currentTime := t\<rparr> = s\<lparr>currentTime := t, contextSwitchOverhead := c\<rparr>"
  "\<And>s :: 'a Scheduler_scheme. s\<lparr>contextSwitchOverhead := c, currentProcess := cp\<rparr> = s\<lparr>currentProcess := cp, contextSwitchOverhead := c\<rparr>"
  "\<And>s :: MultilevelQueueScheduler. s\<lparr>contextSwitchOverhead := c, queues_MLQ := qs\<rparr> = s\<lparr>queues_MLQ := qs, contextSwitchOverhead := c\<rparr>"
  "\<And>s :: MultilevelQueueScheduler. s\<lparr>contextSwitchOverhead := c, ganttChart_MLQ := g\<rparr> = s\<lparr>ganttChart_MLQ := g, contextSwitchOverhead := c\<rparr>"
  by simp_all

lemma mlq_dispatch_overhead:
  assumes "currentProcess s = None"
  shows "mlq_dispatch k (s\<lparr>contextSwitchOverhead := c\<rparr>) =
           map_loop_result (\<lambda>s'. s'\<lparr>contextSwitchOverhead := c\<rparr>) (mlq_dispatch k s)"
  using assms
  by (simp add: mlq_dispatch_def Let_def overhead_outward contextSwitch_null_overhead
        scheduleFromQueue_overhead admit_overhead mlq_enqueue_overhead)


lemma mlq_iteration_fields:
  assumes "currentProcess s = None"
  shows "currentProcess (loop_state (mlq_iteration s)) = None \<and>
         totalContextSwitches (loop_state (mlq_iteration s)) = totalContextSwitches s"
proof -
  let ?s2 = "mlq_enqueue None (snd (admitArrivingProcesses s))"
  have "currentProcess ?s2 = None" "totalContextSwitches ?s2 = totalContextSwitches s"
    using assms by simp_all
  then show ?thesis
    using mlq_dispatch_fields [of ?s2]
    by (simp add: mlq_iteration_def Let_def)
qed

lemma mlq_getHighestPriorityQueue_overhead [simp]:
  "mlq_getHighestPriorityQueue (s\<lparr>contextSwitchOverhead := c\<rparr>) = mlq_getHighestPriorityQueue s"
  by (simp add: mlq_getHighestPriorityQueue_def)

lemma mlq_iteration_overhead:
  assumes "currentProcess s = None"
  shows "mlq_iteration (s\<lparr>contextSwitchOverhead := c\<rparr>) =
           map_loop_result (\<lambda>s'. s'\<lparr>contextSwitchOverhead := c\<rparr>) (mlq_iteration s)"
proof -
  let ?s2 = "mlq_enqueue None (snd (admitArrivingProcesses s))"
  have "currentProcess ?s2 = None"
    using assms by simp
  then show ?thesis
    using mlq_dispatch_overhead [of ?s2]
    by (simp add: mlq_iteration_def Let_def admit_overhead mlq_enqueue_overhead overhead_outward)
qed

lemma mlq_loop_overhead:
  "currentProcess s = None \<Longrightarrow>
   mlq_loop n (s\<lparr>contextSwitchOverhead := c\<rparr>) =
     map_option (\<lambda>s'. s'\<lparr>contextSwitchOverhead := c\<rparr>) (mlq_loop n s)"
proof (induction n arbitrary: s)
  case 0
  then show ?case by simp
next
  case (Suc n)
  show ?case
  proof (cases "mlq_iteration s")
    case (Continue s')
    with mlq_iteration_fields [OF Suc.prems] have "currentProcess s' = None"
      by simp
    with Continue Suc.IH [of s'] mlq_iteration_overhead [OF Suc.prems, where c = c] show ?thesis
      by simp
  next
    case (Break s')
    with mlq_iteration_overhead [OF Suc.prems, where c = c] show ?thesis
      by simp
  qed
qed

lemma mlq_loop_fields:
  "currentProcess s = None \<Longrightarrow> mlq_loop n s = Some s' \<Longrightarrow>
   currentProcess s' = None \<and> totalContextSwitches s' = totalContextSwitches s"
proof (induction n arbitrary: s)
  case 0
  then show ?case by simp
next
  case (Suc n)
  show ?case
  proof (cases "mlq_iteration s")
    case (Continue t)
    with mlq_iteration_fields [OF Suc.prems(1)]
    have "currentProcess t = None" "totalContextSwitches t = totalContextSwitches s"
      by simp_all
    with Continue Suc.IH [of t] Suc.prems(2) show ?thesis
      by simp
  next
    case (Break t)
    with mlq_iteration_fields [OF Suc.prems(1)] Suc.prems(2) show ?thesis
      by simp
  qed
qed

lemma overhead_outward_mlfq:
  "\<And>s :: MultilevelFeedbackQueueScheduler. s\<lparr>contextSwitchOverhead := c, queues_MLFQ := qs\<rparr> = s\<lparr>queues_MLFQ := qs, contextSwitchOverhead := c\<rparr>"
  "\<And>s :: MultilevelFeedbackQueueScheduler. s\<lparr>contextSwitchOverhead := c, ganttChart_MLFQ := g\<rparr> = s\<lparr>ganttChart_MLFQ := g, contextSwitchOverhead := c\<rparr>"
  "\<And>s :: MultilevelFeedbackQueueScheduler. s\<lparr>contextSwitchOverhead := c, processQueueLevel := l\<rparr> = s\<lparr>processQueueLevel := l, contextSwitchOverhead := c\<rparr>"
  "\<And>s :: MultilevelFeedbackQueueScheduler. s\<lparr>contextSwitchOverhead := c, timeInQueue := t\<rparr> = s\<lparr>timeInQueue := t, contextSwitchOverhead := c\<rparr>"
  by simp_all

lemma promoteProcess_overhead:
  "promoteProcess i (s\<lparr>contextSwitchOverhead := c\<rparr>) = (promoteProcess i s)\<lparr>contextSwitchOverhead := c\<rparr>"
  by (simp add: promoteProcess_def Let_def)

lemma demoteProcess_overhead:
  "demoteProcess i (s\<lparr>contextSwitchOverhead := c\<rparr>) = (demoteProcess i s)\<lparr>contextSwitchOverhead := c\<rparr>"
  by (simp add: demoteProcess_def Let_def)

lemma mlfq_ageOne_overhead:
  "mlfq_ageOne i (s\<lparr>contextSwitchOverhead := c\<rparr>) = (mlfq_ageOne i s)\<lparr>contextSwitchOverhead := c\<rparr>"
  by (simp add: mlfq_ageOne_def Let_def promoteProcess_def)

lemma fold_ageOne_overhead:
  "fold mlfq_ageOne xs (s\<lparr>contextSwitchOverhead := c\<rparr>) =
     (fold mlfq_ageOne xs s)\<lparr>contextSwitchOverhead := c\<rparr>"
  by (induction xs arbitrary: s) (simp_all add: mlfq_ageOne_overhead)

lemma mlfq_applyAging_overhead:
  "mlfq_applyAging (s\<lparr>contextSwitchOverhead := c\<rparr>) = (mlfq_applyAging s)\<lparr>contextSwitchOverhead := c\<rparr>"
  by (simp add: mlfq_applyAging_def fold_ageOne_overhead)

lemma mlfq_aging_check_overhead:
  "mlfq_aging_check (s\<lparr>contextSwitchOverhead := c\<rparr>) =
     map_sum id (\<lambda>s'. s'\<lparr>contextSwitchOverhead := c\<rparr>) (mlfq_aging_check s)"
  by (simp add: mlfq_aging_check_def mlfq_applyAging_overhead split: sum.split)

lemma mlfq_enqueue_overhead:
  "mlfq_enqueue skip (s\<lparr>contextSwitchOverhead := c\<rparr>) =
     map_sum id (\<lambda>s'. s'\<lparr>contextSwitchOverhead := c\<rparr>) (mlfq_enqueue skip s)"
  by (simp add: mlfq_enqueue_def split: sum.split prod.split)

lemma mlfq_prepare_overhead:
  "mlfq_prepare (s\<lparr>contextSwitchOverhead := c\<rparr>) =
     map_sum id (\<lambda>s'. s'\<lparr>contextSwitchOverhead := c\<rparr>) (mlfq_prepare s)"
  by (simp add: mlfq_prepare_def Let_def admit_overhead mlfq_aging_check_overhead
        mlfq_enqueue_overhead split: sum.split)

lemma mlfq_requeue_overhead:
  "mlfq_requeue i e q (s\<lparr>contextSwitchOverhead := c\<rparr>) =
     map_sum id (\<lambda>s'. s'\<lparr>contextSwitchOverhead := c\<rparr>) (mlfq_requeue i e q s)"
proof -
  define cc where
    "cc = snd (admitArrivingProcesses
                 (if e = q
                  then demoteProcess i (s\<lparr>processes := at i (\<lambda>p. p\<lparr>state := READY\<rparr>) (processes s)\<rparr>)
                  else s\<lparr>processes := at i (\<lambda>p. p\<lparr>state := READY\<rparr>) (processes s)\<rparr>))"
  let ?tail = "\<lambda>d. let newLevel = processQueueLevel d (pid (processes d ! i))
             in if 0 \<le> newLevel \<and> newLevel < int (length (queues_MLFQ d))
                then Inr (d\<lparr>queues_MLFQ :=
                              (queues_MLFQ d)[nat newLevel := queues_MLFQ d ! nat newLevel @ [i]],
                            processes :=
                              at i (\<lambda>p. p\<lparr>lastScheduledTime := currentTime d\<rparr>) (processes d)\<rparr>)
                else Inl OutOfRange"
  have 1: "mlfq_requeue i e q s =
             (case mlfq_enqueue (Some i) cc of Inl er \<Rightarrow> Inl er | Inr d \<Rightarrow> ?tail d)"
    by (simp add: mlfq_requeue_def Let_def cc_def)
  have 2: "mlfq_requeue i e q (s\<lparr>contextSwitchOverhead := c\<rparr>) =
             (case mlfq_enqueue (Some i) (cc\<lparr>contextSwitchOverhead := c\<rparr>) of
                Inl er \<Rightarrow> Inl er | Inr d \<Rightarrow> ?tail d)"
    by (simp add: mlfq_requeue_def Let_def cc_def overhead_outward demoteProcess_overhead
          admit_overhead)
  have 3: "?tail (d\<lparr>contextSwitchOverhead := c\<rparr>) =
             map_sum id (\<lambda>s'. s'\<lparr>contextSwitchOverhead := c\<rparr>) (?tail d)" for d
    by (simp add: Let_def)
  show ?thesis
    unfolding 1 2 mlfq_enqueue_overhead
    by (cases "mlfq_enqueue (Some i) cc") (simp_all only: 3 sum.case map_sum.simps id_apply)
qed


lemma mlfq_slice_overhead:
  assumes "currentProcess s = None"
  shows "mlfq_slice k (s\<lparr>contextSwitchOverhead := c\<rparr>) =
           (case mlfq_slice k s of (i, quantum, executionTime, s5) \<Rightarrow>
              (i, quantum, executionTime, s5\<lparr>contextSwitchOverhead := c\<rparr>))"
  using assms
  by (simp add: mlfq_slice_def Let_def split_def overhead_outward overhead_outward_mlfq
        contextSwitch_null_overhead)

lemma mlfq_slice_fields:
  assumes "currentProcess s = None" and "mlfq_slice k s = (i, quantum, e, s5)"
  shows "totalContextSwitches s5 = totalContextSwitches s"
  using assms
  by (auto simp: mlfq_slice_def Let_def split_def contextSwitch_null_fields)

lemma mlfq_dispatch_overhead:
  assumes "currentProcess s = None"
  shows "mlfq_dispatch k (s\<lparr>contextSwitchOverhead := c\<rparr>) =
           map_sum id (map_loop_result (\<lambda>s'. s'\<lparr>contextSwitchOverhead := c\<rparr>)) (mlfq_dispatch k s)"
proof -
  obtain i quantum e s5 where sl: "mlfq_slice k s = (i, quantum, e, s5)"
    by (cases "mlfq_slice k s") auto
  have slc: "mlfq_slice k (s\<lparr>contextSwitchOverhead := c\<rparr>) =
               (i, quantum, e, s5\<lparr>contextSwitchOverhead := c\<rparr>)"
    using mlfq_slice_overhead [OF assms, where c = c and k = k] by (simp add: sl)
  show ?thesis
  proof (cases "isComplete (processes s5 ! i)")
    case True
    then show ?thesis
      by (simp add: mlfq_dispatch_def sl slc Let_def overhead_outward)
  next
    case False
    then show ?thesis
      by (cases "mlfq_requeue i e quantum s5")
         (simp_all add: mlfq_dispatch_def sl slc Let_def mlfq_requeue_overhead overhead_outward)
  qed
qed

lemma mlfq_enqueue_scheduler_fields:
  "mlfq_enqueue skip s = Inr s' \<Longrightarrow>
   currentProcess s' = currentProcess s \<and> totalContextSwitches s' = totalContextSwitches s"
  by (auto simp: mlfq_enqueue_def split: sum.splits prod.splits)

lemma mlfq_requeue_fields:
  assumes "mlfq_requeue i e q s = Inr s'"
  shows "totalContextSwitches s' = totalContextSwitches s"
proof -
  define cc where
    "cc = snd (admitArrivingProcesses
                 (if e = q
                  then demoteProcess i (s\<lparr>processes := at i (\<lambda>p. p\<lparr>state := READY\<rparr>) (processes s)\<rparr>)
                  else s\<lparr>processes := at i (\<lambda>p. p\<lparr>state := READY\<rparr>) (processes s)\<rparr>))"
  have t: "totalContextSwitches cc = totalContextSwitches s"
    by (simp add: cc_def demoteProcess_def Let_def)
  from assms obtain d where d: "mlfq_enqueue (Some i) cc = Inr d"
    and s': "totalContextSwitches s' = totalContextSwitches d"
    by (auto simp: mlfq_requeue_def Let_def cc_def split: sum.splits if_splits)
  with t mlfq_enqueue_scheduler_fields [OF d] show ?thesis
    by simp
qed

lemma mlfq_dispatch_fields:
  assumes "currentProcess s = None" and "mlfq_dispatch k s = Inr res"
  shows "currentProcess (loop_state res) = None \<and>
         totalContextSwitches (loop_state res) = totalContextSwitches s"
proof -
  obtain i quantum e s5 where sl: "mlfq_slice k s = (i, quantum, e, s5)"
    by (cases "mlfq_slice k s") auto
  have t5: "totalContextSwitches s5 = totalContextSwitches s"
    using mlfq_slice_fields [OF assms(1) sl] .
  from assms(2) obtain s6 where
    s6: "(if isComplete (processes s5 ! i)
          then Inr (s5\<lparr>processes := at i (terminate (currentTime s5)) (processes s5)\<rparr>)
          else mlfq_requeue i e quantum s5) = Inr s6"
    and r: "loop_state res = s6\<lparr>currentProcess := None\<rparr>"
    unfolding mlfq_dispatch_def sl Let_def prod.case
    by (auto split: sum.splits if_splits)
  have "totalContextSwitches s6 = totalContextSwitches s5"
    using s6 mlfq_requeue_fields by (auto split: if_splits)
  with t5 r show ?thesis
    by simp
qed

lemma fold_ageOne_fields:
  "currentProcess (fold mlfq_ageOne xs s) = currentProcess s \<and>
   totalContextSwitches (fold mlfq_ageOne xs s) = totalContextSwitches s"
  by (induction xs arbitrary: s) (simp_all add: mlfq_ageOne_def promoteProcess_def Let_def)

lemma mlfq_prepare_fields:
  assumes "mlfq_prepare s = Inr s'"
  shows "currentProcess s' = currentProcess s \<and> totalContextSwitches s' = totalContextSwitches s"
proof -
  from assms obtain s2 where a: "mlfq_aging_check (snd (admitArrivingProcesses s)) = Inr s2"
    and e: "mlfq_enqueue None s2 = Inr s'"
    by (auto simp: mlfq_prepare_def Let_def split: sum.splits)
  from a have "currentProcess s2 = currentProcess s \<and>
               totalContextSwitches s2 = totalContextSwitches s"
    by (auto simp: mlfq_aging_check_def mlfq_applyAging_def fold_ageOne_fields
          split: sum.splits if_splits)
  with mlfq_enqueue_scheduler_fields [OF e] show ?thesis
    by simp
qed

lemma mlfq_getHighestPriorityQueue_overhead [simp]:
  "mlfq_getHighestPriorityQueue (s\<lparr>contextSwitchOverhead := c\<rparr>) = mlfq_getHighestPriorityQueue s"
  by (simp add: mlfq_getHighestPriorityQueue_def)

lemma mlfq_iteration_fields:
  assumes "currentProcess s = None" and "mlfq_iteration s = Inr res"
  shows "currentProcess (loop_state res) = None \<and>
         totalContextSwitches (loop_state res) = totalContextSwitches s"
proof -
  from assms(2) obtain s3 where p: "mlfq_prepare s = Inr s3"
    by (auto simp: mlfq_iteration_def split: sum.splits)
  from mlfq_prepare_fields [OF p] assms(1)
  have f: "currentProcess s3 = None" "totalContextSwitches s3 = totalContextSwitches s"
    by simp_all
  show ?thesis
  proof (cases "mlfq_getHighestPriorityQueue s3 = -1")
    case True
    with assms(2) p f show ?thesis
      by (auto simp: mlfq_iteration_def Let_def split: if_splits)
  next
    case False
    with assms(2) p have "mlfq_dispatch (nat (mlfq_getHighestPriorityQueue s3)) s3 = Inr res"
      by (simp add: mlfq_iteration_def Let_def)
    from mlfq_dispatch_fields [OF f(1) this] f(2) show ?thesis
      by simp
  qed
qed

lemma mlfq_iteration_overhead:
  assumes "currentProcess s = None"
  shows "mlfq_iteration (s\<lparr>contextSwitchOverhead := c\<rparr>) =
           map_sum id (map_loop_result (\<lambda>s'. s'\<lparr>contextSwitchOverhead := c\<rparr>)) (mlfq_iteration s)"
proof (cases "mlfq_prepare s")
  case (Inl e)
  then show ?thesis
    by (simp add: mlfq_iteration_def mlfq_prepare_overhead)
next
  case (Inr s3)
  from mlfq_prepare_fields [OF Inr] assms have f: "currentProcess s3 = None"
    by simp
  show ?thesis
    using Inr mlfq_dispatch_overhead [OF f, where c = c]
    by (simp add: mlfq_iteration_def mlfq_prepare_overhead Let_def overhead_outward
          overhead_outward_mlfq)
qed

lemma mlfq_loop_overhead:
  "currentProcess s = None \<Longrightarrow>
   mlfq_loop n (s\<lparr>contextSwitchOverhead := c\<rparr>) =
     map_option (map_sum id (\<lambda>s'. s'\<lparr>contextSwitchOverhead := c\<rparr>)) (mlfq_loop n s)"
proof (induction n arbitrary: s)
  case 0
  then show ?case by simp
next
  case (Suc n)
  show ?case
  proof (cases "mlfq_iteration s")
    case (Inl e)
    with mlfq_iteration_overhead [OF Suc.prems, where c = c] show ?thesis
      by simp
  next
    case (Inr res)
    show ?thesis
    proof (cases res)
      case (Continue s')
      with mlfq_iteration_fields [OF Suc.prems Inr] have "currentProcess s' = None"
        by simp
      with Continue Inr Suc.IH [of s'] mlfq_iteration_overhead [OF Suc.prems, where c = c]
      show ?thesis by simp
    next
      case (Break s')
      with Inr mlfq_iteration_overhead [OF Suc.prems, where c = c] show ?thesis
        by simp
    qed
  qed
qed

lemma mlfq_loop_fields:
  "currentProcess s = None \<Longrightarrow> mlfq_loop n s = Some (Inr s') \<Longrightarrow>
   currentProcess s' = None \<and> totalContextSwitches s' = totalContextSwitches s"
proof (induction n arbitrary: s)
  case 0
  then show ?case by simp
next
  case (Suc n)
  from Suc.prems(2) obtain res where it: "mlfq_iteration s = Inr res"
    by (cases "mlfq_iteration s") auto
  note f = mlfq_iteration_fields [OF Suc.prems(1) it]
  show ?case
  proof (cases res)
    case (Continue t)
    with f have "currentProcess t = None" "totalContextSwitches t = totalContextSwitches s"
      by simp_all
    with Continue it Suc.IH [of t] Suc.prems(2) show ?thesis
      by simp
  next
    case (Break t)
    with f it Suc.prems(2) show ?thesis
      by simp
  qed
qed


lemma overhead_outward_rr:
  "\<And>s :: RoundRobinScheduler. s\<lparr>contextSwitchOverhead := c, ganttChart_RR := g\<rparr> = s\<lparr>ganttChart_RR := g, contextSwitchOverhead := c\<rparr>"
  by simp

text \<open>
  C10. In the Round Robin, multilevel queue and feedback queue schedulers every dispatch
  calls \<open>contextSwitch(currentProcess, process)\<close> with \<open>currentProcess\<close> null: it is
  null in a scheduler that has just been built, and the loop body sets it back to null
  after every dispatch. So, from any state with a null \<open>currentProcess\<close> and for every
  workload and fuel: the run with overhead \<open>c\<close> is the run with the overhead the scheduler
  had, state for state, except for the stored overhead itself (the overhead never reaches
  the clock); a run that returns leaves \<open>totalContextSwitches\<close> as it found it, which is
  0 for a new scheduler, and leaves \<open>currentProcess\<close> null again. The constructors start
  with a null \<open>currentProcess\<close> and a zero counter, and \<open>addProcess\<close>,
  \<open>addQueueConfig\<close> and \<open>setTimeQuantum\<close> touch neither.
\<close>

theorem dispatch_never_charges_overhead:
  "(currentProcess rr = None \<longrightarrow>
      rr_schedule n (rr\<lparr>contextSwitchOverhead := c\<rparr>) =
        map_option (\<lambda>s'. s'\<lparr>contextSwitchOverhead := c\<rparr>) (rr_schedule n rr) \<and>
      (\<forall>s'. rr_schedule n rr = Some s' \<longrightarrow>
         totalContextSwitches s' = totalContextSwitches rr \<and> currentProcess s' = None)) \<and>
   (currentProcess mlq = None \<longrightarrow>
      mlq_schedule n (mlq\<lparr>contextSwitchOverhead := c\<rparr>) =
        map_option (\<lambda>s'. s'\<lparr>contextSwitchOverhead := c\<rparr>) (mlq_schedule n mlq) \<and>
      (\<forall>s'. mlq_schedule n mlq = Some s' \<longrightarrow>
         totalContextSwitches s' = totalContextSwitches mlq \<and> currentProcess s' = None)) \<and>
   (currentProcess mlfq = None \<longrightarrow>
      mlfq_schedule n (mlfq\<lparr>contextSwitchOverhead := c\<rparr>) =
        map_option (map_sum id (\<lambda>s'. s'\<lparr>contextSwitchOverhead := c\<rparr>)) (mlfq_schedule n mlfq) \<and>
      (\<forall>s'. mlfq_schedule n mlfq = Some (Inr s') \<longrightarrow>
         totalContextSwitches s' = totalContextSwitches mlfq \<and> currentProcess s' = None)) \<and>
   currentProcess (RoundRobinScheduler_init quantum c ps) = None \<and>
   totalContextSwitches (RoundRobinScheduler_init quantum c ps) = 0 \<and>
   currentProcess (MultilevelQueueScheduler_init c) = None \<and>
   totalContextSwitches (MultilevelQueueScheduler_init c) = 0 \<and>
   (MultilevelFeedbackQueueScheduler_init levels aging threshold c ps = Inr fresh \<longrightarrow>
      currentProcess fresh = None \<and> totalContextSwitches fresh = 0) \<and>
   currentProcess (addProcess p sch) = currentProcess sch \<and>
   totalContextSwitches (addProcess p sch) = totalContextSwitches sch \<and>
   currentProcess (addQueueConfig config mlq) = currentProcess mlq \<and>
   totalContextSwitches (addQueueConfig config mlq) = totalContextSwitches mlq \<and>
   currentProcess (setTimeQuantum level q mlfq) = currentProcess mlfq \<and>
   totalContextSwitches (setTimeQuantum level q mlfq) = totalContextSwitches mlfq"
proof (intro conjI impI allI)
  assume h: "currentProcess rr = None"
  let ?rr = "rr\<lparr>currentTime := earliestArrival (processes rr), ganttChart_RR := []\<rparr>"
  have n: "currentProcess ?rr = None" using h by simp
  show "rr_schedule n (rr\<lparr>contextSwitchOverhead := c\<rparr>) =
        map_option (\<lambda>s'. s'\<lparr>contextSwitchOverhead := c\<rparr>) (rr_schedule n rr)"
    using rr_loop_overhead [OF n, where c = c and n = n]
    by (simp add: rr_schedule_def overhead_outward overhead_outward_rr)
  fix s' assume "rr_schedule n rr = Some s'"
  then show "totalContextSwitches s' = totalContextSwitches rr" "currentProcess s' = None"
    using rr_loop_fields [OF n, of n s'] by (simp_all add: rr_schedule_def)
next
  assume h: "currentProcess mlq = None"
  let ?s = "mlq\<lparr>currentTime := earliestArrival (processes mlq), ganttChart_MLQ := []\<rparr>"
  have n: "currentProcess ?s = None" using h by simp
  show "mlq_schedule n (mlq\<lparr>contextSwitchOverhead := c\<rparr>) =
        map_option (\<lambda>s'. s'\<lparr>contextSwitchOverhead := c\<rparr>) (mlq_schedule n mlq)"
    using mlq_loop_overhead [OF n, where c = c and n = n]
    by (simp add: mlq_schedule_def overhead_outward)
  fix s' assume "mlq_schedule n mlq = Some s'"
  then show "totalContextSwitches s' = totalContextSwitches mlq" "currentProcess s' = None"
    using mlq_loop_fields [OF n, of n s'] by (simp_all add: mlq_schedule_def)
next
  assume h: "currentProcess mlfq = None"
  have n: "currentProcess (mlfq_start mlfq) = None" using h by (simp add: mlfq_start_def)
  show "mlfq_schedule n (mlfq\<lparr>contextSwitchOverhead := c\<rparr>) =
        map_option (map_sum id (\<lambda>s'. s'\<lparr>contextSwitchOverhead := c\<rparr>)) (mlfq_schedule n mlfq)"
    using mlfq_loop_overhead [OF n, where c = c and n = n]
    by (simp add: mlfq_schedule_def mlfq_start_def overhead_outward overhead_outward_mlfq)
  fix s' assume "mlfq_schedule n mlfq = Some (Inr s')"
  then show "totalContextSwitches s' = totalContextSwitches mlfq" "currentProcess s' = None"
    using mlfq_loop_fields [OF n, of n s'] by (simp_all add: mlfq_schedule_def mlfq_start_def)
next
  assume "MultilevelFeedbackQueueScheduler_init levels aging threshold c ps = Inr fresh"
  then show "currentProcess fresh = None" "totalContextSwitches fresh = 0"
    by (auto simp: MultilevelFeedbackQueueScheduler_init_def split: if_splits)
qed (simp_all add: RoundRobinScheduler_init_def MultilevelQueueScheduler_init_def
       addProcess_def addQueueConfig_def setTimeQuantum_def)


theorem dispatch_never_charges_overhead_witness:
  "currentProcess rr_arrivals = None \<and>
   map_option (\<lambda>s. (currentTime s, totalContextSwitches s))
     (rr_schedule 10 (rr_arrivals\<lparr>contextSwitchOverhead := 5\<rparr>)) = Some (14, 0) \<and>
   currentProcess mlq_arrivals = None \<and>
   map_option (\<lambda>s. (currentTime s, totalContextSwitches s))
     (mlq_schedule 10 (mlq_arrivals\<lparr>contextSwitchOverhead := 5\<rparr>)) = Some (13, 0) \<and>
   currentProcess mlfq_three = None \<and>
   map_option (map_sum id (\<lambda>s. (currentTime s, totalContextSwitches s)))
     (mlfq_schedule 10 (mlfq_three\<lparr>contextSwitchOverhead := 5\<rparr>)) = Some (Inr (20, 0))"
proof -
  have a: "currentProcess rr_arrivals = None" "currentProcess mlq_arrivals = None"
    "currentProcess mlfq_three = None"
    by code_simp+
  have b: "map_option (\<lambda>s. (currentTime s, totalContextSwitches s)) (rr_schedule 10 rr_arrivals)
             = Some (14, 0)"
    "map_option (\<lambda>s. (currentTime s, totalContextSwitches s)) (mlq_schedule 10 mlq_arrivals)
             = Some (13, 0)"
    "map_option (map_sum id (\<lambda>s. (currentTime s, totalContextSwitches s)))
       (mlfq_schedule 10 mlfq_three) = Some (Inr (20, 0))"
    by code_simp+
  note t = dispatch_never_charges_overhead
             [where rr = rr_arrivals and mlq = mlq_arrivals and mlfq = mlfq_three
                and n = 10 and c = 5]
  from t a have
    "rr_schedule 10 (rr_arrivals\<lparr>contextSwitchOverhead := 5\<rparr>) =
       map_option (\<lambda>s'. s'\<lparr>contextSwitchOverhead := 5\<rparr>) (rr_schedule 10 rr_arrivals)"
    "mlq_schedule 10 (mlq_arrivals\<lparr>contextSwitchOverhead := 5\<rparr>) =
       map_option (\<lambda>s'. s'\<lparr>contextSwitchOverhead := 5\<rparr>) (mlq_schedule 10 mlq_arrivals)"
    "mlfq_schedule 10 (mlfq_three\<lparr>contextSwitchOverhead := 5\<rparr>) =
       map_option (map_sum id (\<lambda>s'. s'\<lparr>contextSwitchOverhead := 5\<rparr>))
         (mlfq_schedule 10 mlfq_three)"
    by blast+
  with a b show ?thesis
    by (simp add: option.map_comp sum.map_comp comp_def id_def)
qed

section \<open>Configurations are not checked\<close>







lemma remaining_addWaitingToOthers [simp]:
  "map remainingTime (addWaitingToOthers i t ps) = map remainingTime ps"
  by (auto simp: addWaitingToOthers_def addWaitingTime_def intro!: nth_equalityI)

















end
